theory Spec2Isabelle
  imports Main
begin

section \<open>Data model (database.py)\<close>

text \<open>
  One row of the table \<open>analyses\<close>. The primary key \<open>id\<close> is called \<open>rec_id\<close> here,
  since \<open>id\<close> is the identity function of HOL. The nullable columns are options.
  Clock readings are natural numbers (ticks); \<open>duration_seconds\<close> holds the difference of
  two readings, the rounding of the float to two decimals is not modelled.
\<close>

record AnalysisRecord =
  rec_id :: string
  filename :: string
  query :: string
  status :: string
  result :: "string option"
  error :: "string option"
  created_at :: nat
  completed_at :: "nat option"
  duration_seconds :: "nat option"

text \<open>
  The world the endpoints and the worker act on: the table, the files on disk, the clock,
  the deliveries accepted by the broker, and three logs that only record what happened:
  every record written by a commit, in order, every call of the crew (its query, its
  path, and whether the file was there when the call began), and every new delivery a
  retry asked for (the number of retries before it and the countdown).
\<close>

record world =
  store :: "AnalysisRecord list"
  files :: "string \<rightharpoonup> string"
  clock :: nat
  queue :: "(string \<times> string \<times> string) list"
  writes :: "AnalysisRecord list"
  engine_calls :: "(string \<times> string \<times> bool) list"
  redeliveries :: "(nat \<times> nat) list"

text \<open>
  What the code cannot decide by itself: whether \<open>worker\<close> can be imported, whether the
  broker accepts a message (\<open>apply_async\<close> raises otherwise), whether \<open>os.remove\<close> raises,
  and what the crew does: \<open>kickoff\<close> either raises (\<open>Inl\<close> of \<open>str(e)\<close>) or returns
  (\<open>Inr\<close> of \<open>str(result)\<close>), and takes some time. The crew may look at the world it
  is started in, so successive attempts need not end alike.

  Writing the upload and committing to the database are taken to succeed, the value of
  \<open>uuid.uuid4()\<close> is an argument of the endpoints, and requests and deliveries run one
  after the other.
\<close>

record env =
  worker_importable :: bool
  enqueue_error :: "string option"
  remove_fails :: bool
  kickoff :: "world \<Rightarrow> string \<Rightarrow> string \<Rightarrow> (string + string) \<times> nat"

text \<open>
  The exceptions that leave an endpoint or the task: FastAPI's \<open>HTTPException\<close> with its
  status code and detail, any other exception with its message, and Celery's \<open>Retry\<close>
  with the message of the cause, the countdown and the retry limit.
\<close>

datatype exc =
    HTTPException nat string
  | Error string
  | Retry string nat nat

section \<open>Strings\<close>

text \<open>
  \<open>str.lower\<close>, \<open>str.endswith\<close> and \<open>str.strip\<close> on strings of 8-bit characters: the
  letters \<open>A\<close> to \<open>Z\<close> are the only ones whose lower case is an ASCII character, and
  \<open>isspace\<close> holds of the white space of Python below code point 256.
\<close>

definition lower_char :: "char \<Rightarrow> char" where
  "lower_char c =
     (let n = (of_char c :: nat)
      in if 65 \<le> n \<and> n \<le> 90 then char_of (n + 32) else c)"

definition lower :: "string \<Rightarrow> string" where
  "lower s = map lower_char s"

definition endswith :: "string \<Rightarrow> string \<Rightarrow> bool" where
  "endswith s t = (length t \<le> length s \<and> drop (length s - length t) s = t)"

definition isspace :: "char \<Rightarrow> bool" where
  "isspace c =
     (let n = (of_char c :: nat)
      in (9 \<le> n \<and> n \<le> 13) \<or> (28 \<le> n \<and> n \<le> 32) \<or> n = 133 \<or> n = 160)"

definition strip :: "string \<Rightarrow> string" where
  "strip s = rev (dropWhile isspace (rev (dropWhile isspace s)))"

definition default_query :: string where
  "default_query = ''Analyze this financial document for investment insights''"

definition normalize_query :: "string \<Rightarrow> string" where
  "normalize_query q = strip (if q = [] \<or> strip q = [] then default_query else q)"

definition document_path :: "string \<Rightarrow> string" where
  "document_path task_id = ''data/financial_document_'' @ task_id @ ''.pdf''"

section \<open>Session operations\<close>

text \<open>\<open>db.query(AnalysisRecord).filter(AnalysisRecord.id == task_id).first()\<close>\<close>

definition query_first :: "world \<Rightarrow> string \<Rightarrow> AnalysisRecord option" where
  "query_first w task_id = find (\<lambda>r. rec_id r = task_id) (store w)"

text \<open>
  \<open>AnalysisRecord(id=..., filename=..., query=..., status=...)\<close>: the other columns take
  their defaults, \<open>created_at\<close> the clock reading \<open>now\<close> at the insert.
\<close>

definition new_record :: "string \<Rightarrow> string \<Rightarrow> string \<Rightarrow> string \<Rightarrow> nat \<Rightarrow> AnalysisRecord" where
  "new_record task_id fname q st now =
     \<lparr>rec_id = task_id, filename = fname, query = q, status = st,
      result = None, error = None, created_at = now,
      completed_at = None, duration_seconds = None\<rparr>"

text \<open>\<open>db.add(record); db.commit()\<close>: a new row.\<close>

definition add_commit :: "AnalysisRecord \<Rightarrow> world \<Rightarrow> world" where
  "add_commit r w = w\<lparr>store := store w @ [r], writes := writes w @ [r]\<rparr>"

text \<open>\<open>db.commit()\<close> after the fields of a loaded record were assigned: its row is replaced.\<close>

definition commit :: "AnalysisRecord \<Rightarrow> world \<Rightarrow> world" where
  "commit r w =
     w\<lparr>store := map (\<lambda>x. if rec_id x = rec_id r then r else x) (store w),
       writes := writes w @ [r]\<rparr>"

text \<open>\<open>with open(file_path, "wb") as f: f.write(content)\<close>\<close>

definition write_file :: "string \<Rightarrow> string \<Rightarrow> world \<Rightarrow> world" where
  "write_file file_path content w = w\<lparr>files := (files w)(file_path \<mapsto> content)\<rparr>"

text \<open>\<open>os.path.exists(file_path)\<close>\<close>

definition path_exists :: "world \<Rightarrow> string \<Rightarrow> bool" where
  "path_exists w file_path = (files w file_path \<noteq> None)"

text \<open>The \<open>finally\<close> block of both executors.\<close>

definition cleanup :: "env \<Rightarrow> string \<Rightarrow> world \<Rightarrow> world" where
  "cleanup e file_path w =
     (if path_exists w file_path
      then (if remove_fails e then w else w\<lparr>files := (files w)(file_path := None)\<rparr>)
      else w)"

text \<open>\<open>financial_crew.kickoff\<close>: the call is logged and the clock moves on.\<close>

definition after_crew :: "string \<Rightarrow> string \<Rightarrow> nat \<Rightarrow> world \<Rightarrow> world" where
  "after_crew q file_path dt w =
     w\<lparr>clock := clock w + dt,
       engine_calls := engine_calls w @ [(q, file_path, path_exists w file_path)]\<rparr>"

definition run_crew :: "env \<Rightarrow> string \<Rightarrow> string \<Rightarrow> world \<Rightarrow> (string + string) \<times> world" where
  "run_crew e q file_path w =
     (case kickoff e w q file_path of (out, dt) \<Rightarrow> (out, after_crew q file_path dt w))"

section \<open>Synchronous endpoint (main.py, \<open>analyze_document\<close>)\<close>

record sync_response =
  resp_status :: string
  resp_task_id :: string
  resp_query :: string
  resp_analysis :: string
  resp_file_processed :: string
  resp_duration_seconds :: nat

text \<open>
  The body of the \<open>try\<close> with its \<open>except\<close> handler. \<open>task_id\<close> is the value of
  \<open>uuid.uuid4()\<close>, \<open>content\<close> the bytes of the upload.
\<close>

definition analyze_document_try ::
  "env \<Rightarrow> string \<Rightarrow> string \<Rightarrow> string \<Rightarrow> string \<Rightarrow> world \<Rightarrow> (exc + sync_response) \<times> world" where
  "analyze_document_try e fname q content task_id w =
     (let file_path = document_path task_id;
          w1 = write_file file_path content w;
          q' = normalize_query q;
          start_time = clock w1;
          record = new_record task_id fname q' ''processing'' (clock w1);
          w2 = add_commit record w1
      in case run_crew e q' file_path w2 of
           (Inr res, w3) \<Rightarrow>
             (let completed = clock w3;
                  duration = completed - start_time;
                  record' = record\<lparr>status := ''completed'', result := Some res,
                                   completed_at := Some completed,
                                   duration_seconds := Some duration\<rparr>;
                  w4 = commit record' w3
              in (Inr \<lparr>resp_status = ''success'', resp_task_id = task_id, resp_query = q',
                       resp_analysis = res, resp_file_processed = fname,
                       resp_duration_seconds = duration\<rparr>, w4))
         | (Inl msg, w3) \<Rightarrow>
             (let w4 = (case query_first w3 task_id of
                          Some r \<Rightarrow>
                            commit (r\<lparr>status := ''failed'', error := Some msg,
                                      completed_at := Some (clock w3)\<rparr>) w3
                        | None \<Rightarrow> w3)
              in (Inl (HTTPException 500 (''Error processing document: '' @ msg)), w4)))"

definition analyze_document ::
  "env \<Rightarrow> string \<Rightarrow> string \<Rightarrow> string \<Rightarrow> string \<Rightarrow> world \<Rightarrow> (exc + sync_response) \<times> world" where
  "analyze_document e fname q content task_id w =
     (if \<not> endswith (lower fname) ''.pdf''
      then (Inl (HTTPException 400 ''Only PDF files are supported.''), w)
      else (case analyze_document_try e fname q content task_id w of
              (out, w') \<Rightarrow> (out, cleanup e (document_path task_id) w')))"

section \<open>Asynchronous endpoint (main.py, \<open>analyze_document_async\<close>)\<close>

record async_response =
  aresp_status :: string
  aresp_task_id :: string
  aresp_message :: string
  aresp_status_url :: string

text \<open>
  \<open>apply_async\<close> hands the delivery to the broker, or raises when the broker cannot be
  reached; nothing in the endpoint catches that exception.
\<close>

definition apply_async :: "env \<Rightarrow> string \<times> string \<times> string \<Rightarrow> world \<Rightarrow> exc + world" where
  "apply_async e args w =
     (case enqueue_error e of
        Some msg \<Rightarrow> Inl (Error msg)
      | None \<Rightarrow> Inr (w\<lparr>queue := queue w @ [args]\<rparr>))"

definition analyze_document_async ::
  "env \<Rightarrow> string \<Rightarrow> string \<Rightarrow> string \<Rightarrow> string \<Rightarrow> world \<Rightarrow> (exc + async_response) \<times> world" where
  "analyze_document_async e fname q content task_id w =
     (if \<not> worker_importable e
      then (Inl (HTTPException 503
              ''Queue worker unavailable. Ensure Redis is running and Celery is installed.''), w)
      else if \<not> endswith (lower fname) ''.pdf''
      then (Inl (HTTPException 400 ''Only PDF files are supported.''), w)
      else
        (let file_path = document_path task_id;
             w1 = write_file file_path content w;
             q' = normalize_query q;
             record = new_record task_id fname q' ''queued'' (clock w1);
             w2 = add_commit record w1
         in case apply_async e (task_id, q', file_path) w2 of
              Inl x \<Rightarrow> (Inl x, w2)
            | Inr w3 \<Rightarrow>
                (Inr \<lparr>aresp_status = ''queued'', aresp_task_id = task_id,
                      aresp_message =
                        ''Document queued for analysis. Poll /status/{task_id} for results.'',
                      aresp_status_url = ''/status/'' @ task_id\<rparr>, w3)))"

section \<open>Worker (worker.py, \<open>analyze_document_task\<close>)\<close>

text \<open>
  \<open>self.retry(exc=e, countdown=5, max_retries=2)\<close> of Celery, with \<open>retries\<close> the value of
  \<open>self.request.retries\<close>: it raises \<open>Retry\<close>, which asks for a new delivery after
  \<open>countdown\<close>, unless the attempt was already number \<open>max_retries\<close>; then it raises \<open>exc\<close>.
\<close>

definition retry :: "nat \<Rightarrow> string \<Rightarrow> nat \<Rightarrow> nat \<Rightarrow> exc" where
  "retry retries msg countdown max_retries =
     (if retries + 1 > max_retries then Error msg else Retry msg countdown max_retries)"

record task_result =
  tres_status :: string
  tres_result :: string

definition analyze_document_task_try ::
  "env \<Rightarrow> nat \<Rightarrow> string \<Rightarrow> string \<Rightarrow> string \<Rightarrow> world \<Rightarrow> (exc + task_result) \<times> world" where
  "analyze_document_task_try e retries task_id q file_path w =
     (let start_time = clock w;
          record = map_option (\<lambda>r. r\<lparr>status := ''processing''\<rparr>) (query_first w task_id);
          w1 = (case record of Some r \<Rightarrow> commit r w | None \<Rightarrow> w)
      in case run_crew e q file_path w1 of
           (Inr res, w2) \<Rightarrow>
             (let duration = clock w2 - start_time;
                  w3 = (case record of
                          Some r \<Rightarrow>
                            commit (r\<lparr>status := ''completed'', result := Some res,
                                      completed_at := Some (clock w2),
                                      duration_seconds := Some duration\<rparr>) w2
                        | None \<Rightarrow> w2)
              in (Inr \<lparr>tres_status = ''completed'', tres_result = res\<rparr>, w3))
         | (Inl msg, w2) \<Rightarrow>
             (let duration = clock w2 - start_time;
                  w3 = (case query_first w2 task_id of
                          Some r \<Rightarrow>
                            commit (r\<lparr>status := ''failed'', error := Some msg,
                                      completed_at := Some (clock w2),
                                      duration_seconds := Some duration\<rparr>) w2
                        | None \<Rightarrow> w2)
              in (Inl (retry retries msg 5 2), w3)))"

definition analyze_document_task ::
  "env \<Rightarrow> nat \<Rightarrow> string \<Rightarrow> string \<Rightarrow> string \<Rightarrow> world \<Rightarrow> (exc + task_result) \<times> world" where
  "analyze_document_task e retries task_id q file_path w =
     (case analyze_document_task_try e retries task_id q file_path w of
        (out, w') \<Rightarrow> (out, cleanup e file_path w'))"

text \<open>
  The Celery worker around the task: a delivery runs the task with the number of retries
  so far; when the task raises \<open>Retry\<close>, the same arguments are delivered again after the
  countdown, with one retry more. Any other outcome ends the job's deliveries.
\<close>

definition redeliver :: "nat \<Rightarrow> nat \<Rightarrow> world \<Rightarrow> world" where
  "redeliver retries countdown w =
     w\<lparr>clock := clock w + countdown, redeliveries := redeliveries w @ [(retries, countdown)]\<rparr>"

function deliver ::
  "env \<Rightarrow> nat \<Rightarrow> string \<Rightarrow> string \<Rightarrow> string \<Rightarrow> world \<Rightarrow> (exc + task_result) \<times> world" where
  "deliver e retries task_id q file_path w =
     (case analyze_document_task e retries task_id q file_path w of
        (Inl (Retry msg countdown max_retries), w') \<Rightarrow>
          deliver e (retries + 1) task_id q file_path (redeliver retries countdown w')
      | (out, w') \<Rightarrow> (out, w'))"
  by pat_completeness auto
termination
proof (relation "measure (\<lambda>(e, retries, task_id, q, file_path, w). 2 - retries)")
  show "wf (measure (\<lambda>(e, retries, task_id, q, file_path, w). 2 - retries))"
    by simp
next
  fix e :: env and retries task_id q file_path and w :: world
    and x1 x2 x1a x21 x22 x23
  assume "(x1, x2) = analyze_document_task e retries task_id q file_path w"
    and "x1 = Inl x1a" and "x1a = Retry x21 x22 x23"
  then have "retries < 2"
    by (auto simp: analyze_document_task_def analyze_document_task_try_def retry_def Let_def
             split: prod.splits sum.splits if_splits)
  then show "((e, retries + 1, task_id, q, file_path, redeliver retries x22 x2),
              (e, retries, task_id, q, file_path, w))
             \<in> measure (\<lambda>(e, retries, task_id, q, file_path, w). 2 - retries)"
    by simp
qed

declare deliver.simps [simp del]

section \<open>History (main.py, \<open>get_analysis_history\<close>)\<close>

record summary =
  sum_task_id :: string
  sum_filename :: string
  sum_query :: string
  sum_status :: string
  sum_created_at :: nat
  sum_duration_seconds :: "nat option"

record history_response =
  total :: nat
  records :: "summary list"

text \<open>\<open>order_by(AnalysisRecord.created_at.desc())\<close>\<close>

definition order_by_created_at_desc :: "AnalysisRecord list \<Rightarrow> AnalysisRecord list" where
  "order_by_created_at_desc rs = rev (sort_key created_at rs)"

text \<open>
  \<open>.limit(n)\<close> on the SQLite engine that database.py configures: \<open>LIMIT n\<close> keeps the
  first \<open>n\<close> rows, and a negative \<open>n\<close> puts no upper bound on the number of rows.
\<close>

definition sql_limit :: "int \<Rightarrow> 'a list \<Rightarrow> 'a list" where
  "sql_limit n rs = (if n < 0 then rs else take (nat n) rs)"

definition summarize :: "AnalysisRecord \<Rightarrow> summary" where
  "summarize r =
     \<lparr>sum_task_id = rec_id r, sum_filename = filename r, sum_query = query r,
      sum_status = status r, sum_created_at = created_at r,
      sum_duration_seconds = duration_seconds r\<rparr>"

definition get_analysis_history :: "int \<Rightarrow> string option \<Rightarrow> world \<Rightarrow> history_response" where
  "get_analysis_history limit status_filter w =
     (let limit' = min limit 100;
          query_obj = order_by_created_at_desc (store w);
          query_obj' = (case status_filter of
                          Some s \<Rightarrow>
                            if s \<noteq> [] then filter (\<lambda>r. status r = s) query_obj else query_obj
                        | None \<Rightarrow> query_obj);
          rs = sql_limit limit' query_obj'
      in \<lparr>total = length rs, records = map summarize rs\<rparr>)"

section \<open>Properties and concrete inputs\<close>

text \<open>The records committed between two worlds.\<close>

definition new_writes :: "world \<Rightarrow> world \<Rightarrow> AnalysisRecord list" where
  "new_writes w w' = drop (length (writes w)) (writes w')"

text \<open>The deliveries asked for, and the calls of the crew, between two worlds.\<close>

definition new_redeliveries :: "world \<Rightarrow> world \<Rightarrow> (nat \<times> nat) list" where
  "new_redeliveries w w' = drop (length (redeliveries w)) (redeliveries w')"

definition new_calls :: "world \<Rightarrow> world \<Rightarrow> (string \<times> string \<times> bool) list" where
  "new_calls w w' = drop (length (engine_calls w)) (engine_calls w')"

text \<open>
  The invariant of a job record: a terminal record has exactly one of \<open>result\<close> and
  \<open>error\<close>, a record that is queued or processing has neither.
\<close>

definition job_inv :: "AnalysisRecord \<Rightarrow> bool" where
  "job_inv r =
     (((status r = ''completed'' \<or> status r = ''failed'')
         \<longrightarrow> (result r = None) \<noteq> (error r = None))
      \<and> ((status r = ''queued'' \<or> status r = ''processing'')
         \<longrightarrow> result r = None \<and> error r = None))"

text \<open>
  What is left of it on a retried job: the result is set exactly on a completed record,
  and a failed record has an error.
\<close>

definition outcome_inv :: "AnalysisRecord \<Rightarrow> bool" where
  "outcome_inv r =
     ((result r \<noteq> None) = (status r = ''completed'')
      \<and> (status r = ''failed'' \<longrightarrow> error r \<noteq> None))"

text \<open>
  The order of the states, and a sequence of written states that never moves backward.
\<close>

definition status_rank :: "string \<Rightarrow> nat" where
  "status_rank s = (if s = ''queued'' then 0 else if s = ''processing'' then 1 else 2)"

definition forward_only :: "string list \<Rightarrow> bool" where
  "forward_only ss = sorted (map status_rank ss)"

text \<open>
  The states written by the deliveries of one job: each attempt writes \<open>processing\<close> and
  then a terminal state, and every attempt but the last has failed.
\<close>

fun attempts :: "string list \<Rightarrow> bool" where
  "attempts [s, t] = (s = ''processing'' \<and> (t = ''completed'' \<or> t = ''failed''))"
| "attempts (s # t # ss) = (s = ''processing'' \<and> t = ''failed'' \<and> attempts ss)"
| "attempts _ = False"

definition world0 :: world where
  "world0 = \<lparr>store = [], files = Map.empty, clock = 0, queue = [], writes = [],
             engine_calls = [], redeliveries = []\<rparr>"

definition crew_ok :: "world \<Rightarrow> string \<Rightarrow> string \<Rightarrow> (string + string) \<times> nat" where
  "crew_ok w q p = (Inr ''report'', 3)"

definition crew_fails :: "world \<Rightarrow> string \<Rightarrow> string \<Rightarrow> (string + string) \<times> nat" where
  "crew_fails w q p = (Inl ''boom'', 1)"

definition env_ok :: env where
  "env_ok = \<lparr>worker_importable = True, enqueue_error = None, remove_fails = False,
             kickoff = crew_ok\<rparr>"

definition env_fails :: env where
  "env_fails = \<lparr>worker_importable = True, enqueue_error = None, remove_fails = False,
             kickoff = crew_fails\<rparr>"

definition env_broker_down :: env where
  "env_broker_down = env_ok\<lparr>enqueue_error := Some ''Connection refused''\<rparr>"

definition env_no_worker :: env where
  "env_no_worker = env_ok\<lparr>worker_importable := False\<rparr>"


definition job1 :: AnalysisRecord where
  "job1 = \<lparr>rec_id = ''t1'', filename = ''report.pdf'', query = ''Summarise'',
            status = ''queued'', result = None, error = None, created_at = 0,
            completed_at = None, duration_seconds = None\<rparr>"

text \<open>The world after the asynchronous submission of \<open>report.pdf\<close> under the id \<open>t1\<close>.\<close>

definition world1 :: world where
  "world1 = world0\<lparr>store := [job1], files := [document_path ''t1'' \<mapsto> ''%PDF''],
                   queue := [(''t1'', ''Summarise'', document_path ''t1'')],
                   writes := [job1]\<rparr>"

definition env_stuck :: env where
  "env_stuck = env_fails\<lparr>remove_fails := True\<rparr>"

text \<open>A crew that fails on its first call and succeeds afterwards.\<close>

definition crew_flaky :: "world \<Rightarrow> string \<Rightarrow> string \<Rightarrow> (string + string) \<times> nat" where
  "crew_flaky w q p = (if engine_calls w = [] then (Inl ''boom'', 1) else (Inr ''report'', 3))"

definition env_flaky :: env where
  "env_flaky = env_ok\<lparr>kickoff := crew_flaky\<rparr>"

text \<open>A table of \<open>n\<close> queued jobs with distinct ids, created one tick apart.\<close>

definition many_jobs :: "nat \<Rightarrow> AnalysisRecord list" where
  "many_jobs n =
     map (\<lambda>i. new_record (replicate (Suc i) CHR ''j'') ''report.pdf'' ''Summarise'' ''queued'' i)
       [0..<n]"

definition world_many :: "nat \<Rightarrow> world" where
  "world_many n = world0\<lparr>store := many_jobs n\<rparr>"

section \<open>Lemmas about the session operations\<close>

lemma endswith_report_pdf: "endswith (lower ''report.pdf'') ''.pdf''"
  by (simp add: endswith_def lower_def lower_char_def)

lemma not_endswith_notes_txt: "\<not> endswith (lower ''notes.txt'') ''.pdf''"
  by (simp add: endswith_def lower_def lower_char_def)

lemma find_append_fresh:
  "rec_id r \<notin> rec_id ` set rs \<Longrightarrow> find (\<lambda>x. rec_id x = rec_id r) (rs @ [r]) = Some r"
  by (induction rs) auto

lemma find_map_replace:
  "find (\<lambda>x. rec_id x = rec_id r) rs = Some r0
   \<Longrightarrow> find (\<lambda>x. rec_id x = rec_id r) (map (\<lambda>x. if rec_id x = rec_id r then r else x) rs) = Some r"
  by (induction rs) (auto split: if_splits)

lemma find_Some_rec_id: "find (\<lambda>x. rec_id x = task_id) rs = Some r \<Longrightarrow> rec_id r = task_id"
  by (induction rs) (auto split: if_splits)

lemma query_first_add_commit:
  "rec_id r \<notin> rec_id ` set (store w) \<Longrightarrow> query_first (add_commit r w) (rec_id r) = Some r"
  by (simp add: query_first_def add_commit_def find_append_fresh)

lemma query_first_commit:
  "query_first w (rec_id r) = Some r0 \<Longrightarrow> query_first (commit r w) (rec_id r) = Some r"
  by (simp add: query_first_def commit_def find_map_replace)

lemma query_first_rec_id: "query_first w task_id = Some r \<Longrightarrow> rec_id r = task_id"
  unfolding query_first_def by (rule find_Some_rec_id)

lemma query_first_after_crew:
  "query_first (after_crew q p dt w) task_id = query_first w task_id"
  by (simp add: after_crew_def query_first_def)

lemma query_first_cleanup: "query_first (cleanup e p w) task_id = query_first w task_id"
  by (simp add: cleanup_def query_first_def)


lemma after_crew_fields:
  "store (after_crew q p dt w) = store w"
  "writes (after_crew q p dt w) = writes w"
  "files (after_crew q p dt w) = files w"
  "queue (after_crew q p dt w) = queue w"
  "clock (after_crew q p dt w) = clock w + dt"
  "redeliveries (after_crew q p dt w) = redeliveries w"
  "engine_calls (after_crew q p dt w) = engine_calls w @ [(q, p, path_exists w p)]"
  by (simp_all add: after_crew_def)

lemma cleanup_fields:
  "store (cleanup e p w) = store w"
  "writes (cleanup e p w) = writes w"
  "queue (cleanup e p w) = queue w"
  "clock (cleanup e p w) = clock w"
  "redeliveries (cleanup e p w) = redeliveries w"
  "engine_calls (cleanup e p w) = engine_calls w"
  by (simp_all add: cleanup_def)

lemma cleanup_files:
  "files (cleanup e p w) p' = (if p' = p \<and> \<not> remove_fails e then None else files w p')"
  by (auto simp: cleanup_def path_exists_def)

lemma commit_fields:
  "writes (commit r w) = writes w @ [r]"
  "files (commit r w) = files w"
  "queue (commit r w) = queue w"
  "clock (commit r w) = clock w"
  "redeliveries (commit r w) = redeliveries w"
  "engine_calls (commit r w) = engine_calls w"
  by (simp_all add: commit_def)

lemma add_commit_fields:
  "store (add_commit r w) = store w @ [r]"
  "writes (add_commit r w) = writes w @ [r]"
  "files (add_commit r w) = files w"
  "queue (add_commit r w) = queue w"
  "clock (add_commit r w) = clock w"
  "redeliveries (add_commit r w) = redeliveries w"
  "engine_calls (add_commit r w) = engine_calls w"
  by (simp_all add: add_commit_def)

lemma redeliver_fields:
  "store (redeliver n c w) = store w"
  "writes (redeliver n c w) = writes w"
  "files (redeliver n c w) = files w"
  "queue (redeliver n c w) = queue w"
  "clock (redeliver n c w) = clock w + c"
  "redeliveries (redeliver n c w) = redeliveries w @ [(n, c)]"
  "engine_calls (redeliver n c w) = engine_calls w"
  by (simp_all add: redeliver_def)

lemma path_exists_simps:
  "path_exists (commit r w) p = path_exists w p"
  "path_exists (add_commit r w) p = path_exists w p"
  "path_exists (after_crew q p' dt w) p = path_exists w p"
  "path_exists (redeliver n c w) p = path_exists w p"
  by (simp_all add: path_exists_def commit_fields add_commit_fields after_crew_fields
        redeliver_fields)

lemma rec_ids_commit: "map rec_id (store (commit r w)) = map rec_id (store w)"
  by (simp add: commit_def comp_def cong: map_cong)

lemma query_first_redeliver: "query_first (redeliver n c w) task_id = query_first w task_id"
  by (simp add: redeliver_def query_first_def)

subsection \<open>What one run of the task does\<close>

lemma task_failure:
  assumes r: "query_first w task_id = Some r"
    and k: "kickoff e (commit (r\<lparr>status := ''processing''\<rparr>) w) q p = (Inl msg, dt)"
  shows "analyze_document_task e retries task_id q p w =
           (Inl (retry retries msg 5 2),
            cleanup e p
              (commit (r\<lparr>status := ''failed'', error := Some msg,
                         completed_at := Some (clock w + dt), duration_seconds := Some dt\<rparr>)
                 (after_crew q p dt (commit (r\<lparr>status := ''processing''\<rparr>) w))))"
proof -
  have id: "rec_id r = task_id" using r by (rule query_first_rec_id)
  let ?rp = "r\<lparr>status := ''processing''\<rparr>"
  let ?w1 = "commit ?rp w"
  have "query_first ?w1 task_id = Some ?rp"
    using query_first_commit [of w ?rp r] r id by simp
  then have q2: "query_first (after_crew q p dt ?w1) task_id = Some ?rp"
    by (simp add: query_first_after_crew)
  have rc: "run_crew e q p ?w1 = (Inl msg, after_crew q p dt ?w1)"
    by (simp add: run_crew_def k)
  have "analyze_document_task_try e retries task_id q p w
          = (Inl (retry retries msg 5 2),
             commit (?rp\<lparr>status := ''failed'', error := Some msg,
                       completed_at := Some (clock w + dt), duration_seconds := Some dt\<rparr>)
               (after_crew q p dt ?w1))"
    by (simp add: analyze_document_task_try_def r rc q2 Let_def after_crew_fields commit_fields)
  then show ?thesis
    by (simp add: analyze_document_task_def)
qed

lemma task_success:
  assumes r: "query_first w task_id = Some r"
    and k: "kickoff e (commit (r\<lparr>status := ''processing''\<rparr>) w) q p = (Inr res, dt)"
  shows "analyze_document_task e retries task_id q p w =
           (Inr \<lparr>tres_status = ''completed'', tres_result = res\<rparr>,
            cleanup e p
              (commit (r\<lparr>status := ''completed'', result := Some res,
                         completed_at := Some (clock w + dt), duration_seconds := Some dt\<rparr>)
                 (after_crew q p dt (commit (r\<lparr>status := ''processing''\<rparr>) w))))"
proof -
  let ?rp = "r\<lparr>status := ''processing''\<rparr>"
  let ?w1 = "commit ?rp w"
  have rc: "run_crew e q p ?w1 = (Inr res, after_crew q p dt ?w1)"
    by (simp add: run_crew_def k)
  have "analyze_document_task_try e retries task_id q p w
          = (Inr \<lparr>tres_status = ''completed'', tres_result = res\<rparr>,
             commit (?rp\<lparr>status := ''completed'', result := Some res,
                       completed_at := Some (clock w + dt), duration_seconds := Some dt\<rparr>)
               (after_crew q p dt ?w1))"
    by (simp add: analyze_document_task_try_def r rc Let_def after_crew_fields commit_fields)
  then show ?thesis
    by (simp add: analyze_document_task_def)
qed

lemma task_no_record:
  assumes r: "query_first w task_id = None"
    and k: "kickoff e w q p = (out, dt)"
  shows "analyze_document_task e retries task_id q p w =
           ((case out of
               Inr res \<Rightarrow> Inr \<lparr>tres_status = ''completed'', tres_result = res\<rparr>
             | Inl msg \<Rightarrow> Inl (retry retries msg 5 2)),
            cleanup e p (after_crew q p dt w))"
  by (cases out)
     (simp_all add: analyze_document_task_def analyze_document_task_try_def r k run_crew_def
        query_first_after_crew Let_def)

lemma task_failure_proj:
  assumes r: "query_first w task_id = Some r"
    and k: "kickoff e (commit (r\<lparr>status := ''processing''\<rparr>) w) q p = (Inl msg, dt)"
  shows "fst (analyze_document_task e retries task_id q p w) = Inl (retry retries msg 5 2)"
    and "writes (snd (analyze_document_task e retries task_id q p w)) =
           writes w @
           [r\<lparr>status := ''processing''\<rparr>,
            r\<lparr>status := ''failed'', error := Some msg,
              completed_at := Some (clock w + dt), duration_seconds := Some dt\<rparr>]"
    and "query_first (snd (analyze_document_task e retries task_id q p w)) task_id =
           Some (r\<lparr>status := ''failed'', error := Some msg,
              completed_at := Some (clock w + dt), duration_seconds := Some dt\<rparr>)"
    and "redeliveries (snd (analyze_document_task e retries task_id q p w)) = redeliveries w"
    and "engine_calls (snd (analyze_document_task e retries task_id q p w)) =
           engine_calls w @ [(q, p, path_exists w p)]"
    and "map rec_id (store (snd (analyze_document_task e retries task_id q p w))) =
           map rec_id (store w)"
    and "files (snd (analyze_document_task e retries task_id q p w)) p' =
           (if p' = p \<and> \<not> remove_fails e then None else files w p')"
proof -
  note T = task_failure [OF r k, of retries]
  have id: "rec_id r = task_id" using r by (rule query_first_rec_id)
  let ?rp = "r\<lparr>status := ''processing''\<rparr>"
  let ?rf = "r\<lparr>status := ''failed'', error := Some msg,
              completed_at := Some (clock w + dt), duration_seconds := Some dt\<rparr>"
  have "query_first (commit ?rp w) task_id = Some ?rp"
    using query_first_commit [of w ?rp r] r id by simp
  then have "query_first (after_crew q p dt (commit ?rp w)) task_id = Some ?rp"
    by (simp add: query_first_after_crew)
  then have "query_first (commit ?rf (after_crew q p dt (commit ?rp w))) task_id = Some ?rf"
    using query_first_commit [of "after_crew q p dt (commit ?rp w)" ?rf ?rp] id by simp
  then show "query_first (snd (analyze_document_task e retries task_id q p w)) task_id = Some ?rf"
    by (simp add: T query_first_cleanup)
  show "fst (analyze_document_task e retries task_id q p w) = Inl (retry retries msg 5 2)"
    by (simp add: T)
  show "writes (snd (analyze_document_task e retries task_id q p w)) = writes w @ [?rp, ?rf]"
    by (simp add: T cleanup_fields commit_fields after_crew_fields)
  show "redeliveries (snd (analyze_document_task e retries task_id q p w)) = redeliveries w"
    by (simp add: T cleanup_fields commit_fields after_crew_fields)
  show "engine_calls (snd (analyze_document_task e retries task_id q p w)) =
           engine_calls w @ [(q, p, path_exists w p)]"
    by (simp add: T cleanup_fields commit_fields after_crew_fields path_exists_simps)
  show "map rec_id (store (snd (analyze_document_task e retries task_id q p w))) =
           map rec_id (store w)"
    by (simp add: T cleanup_fields rec_ids_commit after_crew_fields)
  show "files (snd (analyze_document_task e retries task_id q p w)) p' =
           (if p' = p \<and> \<not> remove_fails e then None else files w p')"
    by (simp add: T cleanup_files commit_fields after_crew_fields)
qed

lemma task_success_proj:
  assumes r: "query_first w task_id = Some r"
    and k: "kickoff e (commit (r\<lparr>status := ''processing''\<rparr>) w) q p = (Inr res, dt)"
  shows "fst (analyze_document_task e retries task_id q p w) =
           Inr \<lparr>tres_status = ''completed'', tres_result = res\<rparr>"
    and "writes (snd (analyze_document_task e retries task_id q p w)) =
           writes w @
           [r\<lparr>status := ''processing''\<rparr>,
            r\<lparr>status := ''completed'', result := Some res,
              completed_at := Some (clock w + dt), duration_seconds := Some dt\<rparr>]"
    and "redeliveries (snd (analyze_document_task e retries task_id q p w)) = redeliveries w"
    and "engine_calls (snd (analyze_document_task e retries task_id q p w)) =
           engine_calls w @ [(q, p, path_exists w p)]"
    and "map rec_id (store (snd (analyze_document_task e retries task_id q p w))) =
           map rec_id (store w)"
    and "files (snd (analyze_document_task e retries task_id q p w)) p' =
           (if p' = p \<and> \<not> remove_fails e then None else files w p')"
proof -
  note T = task_success [OF r k, of retries]
  show "fst (analyze_document_task e retries task_id q p w) =
           Inr \<lparr>tres_status = ''completed'', tres_result = res\<rparr>"
    by (simp add: T)
  show "writes (snd (analyze_document_task e retries task_id q p w)) =
           writes w @
           [r\<lparr>status := ''processing''\<rparr>,
            r\<lparr>status := ''completed'', result := Some res,
              completed_at := Some (clock w + dt), duration_seconds := Some dt\<rparr>]"
    by (simp add: T cleanup_fields commit_fields after_crew_fields)
  show "redeliveries (snd (analyze_document_task e retries task_id q p w)) = redeliveries w"
    by (simp add: T cleanup_fields commit_fields after_crew_fields)
  show "engine_calls (snd (analyze_document_task e retries task_id q p w)) =
           engine_calls w @ [(q, p, path_exists w p)]"
    by (simp add: T cleanup_fields commit_fields after_crew_fields path_exists_simps)
  show "map rec_id (store (snd (analyze_document_task e retries task_id q p w))) =
           map rec_id (store w)"
    by (simp add: T cleanup_fields rec_ids_commit after_crew_fields)
  show "files (snd (analyze_document_task e retries task_id q p w)) p' =
           (if p' = p \<and> \<not> remove_fails e then None else files w p')"
    by (simp add: T cleanup_files commit_fields after_crew_fields)
qed

lemma deliver_retry:
  assumes "fst (analyze_document_task e n task_id q p w) = Inl (Retry m c mr)"
  shows "deliver e n task_id q p w =
           deliver e (n + 1) task_id q p
             (redeliver n c (snd (analyze_document_task e n task_id q p w)))"
proof -
  obtain out w' where T: "analyze_document_task e n task_id q p w = (out, w')"
    by (cases "analyze_document_task e n task_id q p w")
  with assms have "out = Inl (Retry m c mr)" by simp
  with T show ?thesis by (subst deliver.simps) simp
qed

lemma deliver_raised:
  assumes "fst (analyze_document_task e n task_id q p w) = Inl (Error msg)"
  shows "deliver e n task_id q p w = analyze_document_task e n task_id q p w"
proof -
  obtain out w' where T: "analyze_document_task e n task_id q p w = (out, w')"
    by (cases "analyze_document_task e n task_id q p w")
  with assms have "out = Inl (Error msg)" by simp
  with T show ?thesis by (subst deliver.simps) simp
qed

lemma deliver_returned:
  assumes "fst (analyze_document_task e n task_id q p w) = Inr res"
  shows "deliver e n task_id q p w = analyze_document_task e n task_id q p w"
proof -
  obtain out w' where T: "analyze_document_task e n task_id q p w = (out, w')"
    by (cases "analyze_document_task e n task_id q p w")
  with assms have "out = Inr res" by simp
  with T show ?thesis by (subst deliver.simps) simp
qed

lemma deliver_budget:
  assumes "query_first w task_id = Some r"
  shows "\<exists>k\<le>2 - n.
           redeliveries (snd (deliver e n task_id q p w)) =
             redeliveries w @ map (\<lambda>i. (i, 5)) [n..<n + k]
           \<and> length (engine_calls (snd (deliver e n task_id q p w))) =
               length (engine_calls w) + k + 1
           \<and> (\<forall>x. fst (deliver e n task_id q p w) = Inl x \<longrightarrow>
                 k = 2 - n \<and>
                 (\<exists>msg r'. x = Error msg
                    \<and> query_first (snd (deliver e n task_id q p w)) task_id = Some r'
                    \<and> status r' = ''failed'' \<and> error r' = Some msg))"
  using assms
proof (induction "2 - n" arbitrary: n w r)
  case 0
  then have n: "2 \<le> n" by simp
  obtain out dt where k: "kickoff e (commit (r\<lparr>status := ''processing''\<rparr>) w) q p = (out, dt)"
    by (cases "kickoff e (commit (r\<lparr>status := ''processing''\<rparr>) w) q p")
  show ?case
  proof (cases out)
    case (Inl msg)
    note P = task_failure_proj [OF "0.prems" k [unfolded Inl], of n]
    have f: "fst (analyze_document_task e n task_id q p w) = Inl (Error msg)"
      using P(1) n by (simp add: retry_def)
    have D: "deliver e n task_id q p w = analyze_document_task e n task_id q p w"
      using f by (rule deliver_raised)
    show ?thesis
      using n f by (simp add: D P(3,4,5))
  next
    case (Inr res)
    note P = task_success_proj [OF "0.prems" k [unfolded Inr], of n]
    have D: "deliver e n task_id q p w = analyze_document_task e n task_id q p w"
      using P(1) by (rule deliver_returned)
    show ?thesis
      by (simp add: D P)
  qed
next
  case (Suc j)
  then have n: "n < 2" and j: "j = 2 - (n + 1)" by simp_all
  obtain out dt where k: "kickoff e (commit (r\<lparr>status := ''processing''\<rparr>) w) q p = (out, dt)"
    by (cases "kickoff e (commit (r\<lparr>status := ''processing''\<rparr>) w) q p")
  show ?case
  proof (cases out)
    case (Inl msg)
    note P = task_failure_proj [OF Suc.prems k [unfolded Inl], of n]
    let ?T = "analyze_document_task e n task_id q p w"
    let ?w' = "redeliver n 5 (snd ?T)"
    have f: "fst ?T = Inl (Retry msg 5 2)"
      using P(1) n by (simp add: retry_def)
    have D: "deliver e n task_id q p w = deliver e (n + 1) task_id q p ?w'"
      using f by (rule deliver_retry)
    have q': "query_first ?w' task_id = Some (r\<lparr>status := ''failed'', error := Some msg,
              completed_at := Some (clock w + dt), duration_seconds := Some dt\<rparr>)"
      by (simp add: query_first_redeliver P(3))
    from Suc.hyps(1) [OF j q'] obtain k' where k': "k' \<le> 2 - (n + 1)"
      and R: "redeliveries (snd (deliver e (n + 1) task_id q p ?w')) =
                redeliveries ?w' @ map (\<lambda>i. (i, 5)) [n + 1..<n + 1 + k']"
      and E: "length (engine_calls (snd (deliver e (n + 1) task_id q p ?w'))) =
                length (engine_calls ?w') + k' + 1"
      and F: "\<forall>x. fst (deliver e (n + 1) task_id q p ?w') = Inl x \<longrightarrow>
                 k' = 2 - (n + 1) \<and>
                 (\<exists>msg r'. x = Error msg
                    \<and> query_first (snd (deliver e (n + 1) task_id q p ?w')) task_id = Some r'
                    \<and> status r' = ''failed'' \<and> error r' = Some msg)"
      by blast
    have u: "[n..<n + (k' + 1)] = n # [n + 1..<n + 1 + k']"
      by (simp add: upt_conv_Cons)
    show ?thesis
    proof (intro exI [of _ "k' + 1"] conjI)
      show "k' + 1 \<le> 2 - n" using k' n by simp
      show "redeliveries (snd (deliver e n task_id q p w)) =
              redeliveries w @ map (\<lambda>i. (i, 5)) [n..<n + (k' + 1)]"
        unfolding D R u by (simp add: redeliver_fields P(4))
      show "length (engine_calls (snd (deliver e n task_id q p w))) =
              length (engine_calls w) + (k' + 1) + 1"
        unfolding D E by (simp add: redeliver_fields P(5))
      show "\<forall>x. fst (deliver e n task_id q p w) = Inl x \<longrightarrow>
                 k' + 1 = 2 - n \<and>
                 (\<exists>msg r'. x = Error msg
                    \<and> query_first (snd (deliver e n task_id q p w)) task_id = Some r'
                    \<and> status r' = ''failed'' \<and> error r' = Some msg)"
        unfolding D using F n by auto
    qed
  next
    case (Inr res)
    note P = task_success_proj [OF Suc.prems k [unfolded Inr], of n]
    have D: "deliver e n task_id q p w = analyze_document_task e n task_id q p w"
      using P(1) by (rule deliver_returned)
    show ?thesis
      by (simp add: D P)
  qed
qed

subsection \<open>Unfolding for concrete runs\<close>

lemmas run_defs = analyze_document_task_def analyze_document_task_try_def
  analyze_document_def analyze_document_try_def analyze_document_async_def apply_async_def
  run_crew_def after_crew_def query_first_def add_commit_def commit_def cleanup_def
  new_record_def write_file_def
  path_exists_def redeliver_def retry_def document_path_def Let_def

lemma write_file_fields:
  "store (write_file p c w) = store w"
  "writes (write_file p c w) = writes w"
  "queue (write_file p c w) = queue w"
  "clock (write_file p c w) = clock w"
  "redeliveries (write_file p c w) = redeliveries w"
  "engine_calls (write_file p c w) = engine_calls w"
  "files (write_file p c w) p' = (if p' = p then Some c else files w p')"
  by (simp_all add: write_file_def)

lemma new_record_fields:
  "rec_id (new_record task_id fname q st now) = task_id"
  "status (new_record task_id fname q st now) = st"
  "result (new_record task_id fname q st now) = None"
  "error (new_record task_id fname q st now) = None"
  "completed_at (new_record task_id fname q st now) = None"
  "duration_seconds (new_record task_id fname q st now) = None"
  by (simp_all add: new_record_def)

subsection \<open>What the synchronous endpoint does\<close>

lemma sync_failure:
  assumes v: "endswith (lower fname) ''.pdf''"
    and fresh: "task_id \<notin> rec_id ` set (store w)"
    and rec: "rec = new_record task_id fname (normalize_query q) ''processing'' (clock w)"
    and w2: "w2 = add_commit rec (write_file (document_path task_id) content w)"
    and k: "kickoff e w2 (normalize_query q) (document_path task_id) = (Inl msg, dt)"
  shows "analyze_document e fname q content task_id w =
           (Inl (HTTPException 500 (''Error processing document: '' @ msg)),
            cleanup e (document_path task_id)
              (commit (rec\<lparr>status := ''failed'', error := Some msg,
                           completed_at := Some (clock w + dt)\<rparr>)
                 (after_crew (normalize_query q) (document_path task_id) dt w2)))"
proof -
  have id: "rec_id rec = task_id" by (simp add: rec new_record_fields)
  have "query_first w2 task_id = Some rec"
    using query_first_add_commit [of rec "write_file (document_path task_id) content w"] fresh
    by (simp add: w2 id write_file_fields)
  then have q3: "query_first (after_crew (normalize_query q) (document_path task_id) dt w2) task_id
                   = Some rec"
    by (simp add: query_first_after_crew)
  have rc: "run_crew e (normalize_query q) (document_path task_id) w2
              = (Inl msg, after_crew (normalize_query q) (document_path task_id) dt w2)"
    by (simp add: run_crew_def k)
  have c: "clock w2 = clock w"
    by (simp add: w2 add_commit_fields write_file_fields)
  have "analyze_document_try e fname q content task_id w =
           (Inl (HTTPException 500 (''Error processing document: '' @ msg)),
            commit (rec\<lparr>status := ''failed'', error := Some msg,
                         completed_at := Some (clock w + dt)\<rparr>)
                 (after_crew (normalize_query q) (document_path task_id) dt w2))"
    using rc q3 c
    by (simp add: analyze_document_try_def Let_def write_file_fields after_crew_fields
          rec [symmetric] w2 [symmetric])
  then show ?thesis
    by (simp add: analyze_document_def v)
qed

lemma sync_success:
  assumes v: "endswith (lower fname) ''.pdf''"
    and rec: "rec = new_record task_id fname (normalize_query q) ''processing'' (clock w)"
    and w2: "w2 = add_commit rec (write_file (document_path task_id) content w)"
    and k: "kickoff e w2 (normalize_query q) (document_path task_id) = (Inr res, dt)"
  shows "analyze_document e fname q content task_id w =
           (Inr \<lparr>resp_status = ''success'', resp_task_id = task_id,
                 resp_query = normalize_query q, resp_analysis = res,
                 resp_file_processed = fname, resp_duration_seconds = dt\<rparr>,
            cleanup e (document_path task_id)
              (commit (rec\<lparr>status := ''completed'', result := Some res,
                           completed_at := Some (clock w + dt),
                           duration_seconds := Some dt\<rparr>)
                 (after_crew (normalize_query q) (document_path task_id) dt w2)))"
proof -
  have rc: "run_crew e (normalize_query q) (document_path task_id) w2
              = (Inr res, after_crew (normalize_query q) (document_path task_id) dt w2)"
    by (simp add: run_crew_def k)
  have c: "clock w2 = clock w"
    by (simp add: w2 add_commit_fields write_file_fields)
  have "analyze_document_try e fname q content task_id w =
           (Inr \<lparr>resp_status = ''success'', resp_task_id = task_id,
                 resp_query = normalize_query q, resp_analysis = res,
                 resp_file_processed = fname, resp_duration_seconds = dt\<rparr>,
            commit (rec\<lparr>status := ''completed'', result := Some res,
                           completed_at := Some (clock w + dt),
                           duration_seconds := Some dt\<rparr>)
                 (after_crew (normalize_query q) (document_path task_id) dt w2))"
    using rc c
    by (simp add: analyze_document_try_def Let_def write_file_fields after_crew_fields
          rec [symmetric] w2 [symmetric])
  then show ?thesis
    by (simp add: analyze_document_def v)
qed

subsection \<open>The removal of the document\<close>

lemma task_try_remove_fails:
  "analyze_document_task_try (e\<lparr>remove_fails := b\<rparr>) n task_id q p w =
   analyze_document_task_try e n task_id q p w"
  by (simp add: analyze_document_task_try_def run_crew_def)

lemma sync_try_remove_fails:
  "analyze_document_try (e\<lparr>remove_fails := b\<rparr>) fname q content task_id w =
   analyze_document_try e fname q content task_id w"
  by (simp add: analyze_document_try_def run_crew_def)

lemma task_file_removed:
  "\<not> remove_fails e \<Longrightarrow> files (snd (analyze_document_task e n task_id q p w)) p = None"
  by (simp add: analyze_document_task_def cleanup_files split: prod.splits)

lemma sync_file_removed:
  "endswith (lower fname) ''.pdf'' \<Longrightarrow> \<not> remove_fails e \<Longrightarrow>
   files (snd (analyze_document e fname q content task_id w)) (document_path task_id) = None"
  by (simp add: analyze_document_def cleanup_files split: prod.splits)

subsection \<open>The chain of deliveries\<close>

lemma task_calls:
  "engine_calls (snd (analyze_document_task e n task_id q p w)) =
     engine_calls w @ [(q, p, path_exists w p)]"
proof (cases "query_first w task_id")
  case None
  obtain out dt where k: "kickoff e w q p = (out, dt)"
    by (cases "kickoff e w q p")
  show ?thesis
    by (simp add: task_no_record [OF None k] cleanup_fields after_crew_fields)
next
  case (Some r)
  obtain out dt where k: "kickoff e (commit (r\<lparr>status := ''processing''\<rparr>) w) q p = (out, dt)"
    by (cases "kickoff e (commit (r\<lparr>status := ''processing''\<rparr>) w) q p")
  show ?thesis
  proof (cases out)
    case (Inl msg)
    from task_failure_proj(5) [OF Some k [unfolded Inl]] show ?thesis .
  next
    case (Inr res)
    from task_success_proj(4) [OF Some k [unfolded Inr]] show ?thesis .
  qed
qed

lemma deliver_calls:
  assumes ok: "\<not> remove_fails e"
  shows "\<exists>cs. engine_calls (snd (deliver e n task_id q p w)) =
                engine_calls w @ (q, p, path_exists w p) # cs
              \<and> list_all (\<lambda>c. \<not> snd (snd c)) cs"
  using ok
proof (induction e n task_id q p w rule: deliver.induct)
  case (1 e n task_id q p w)
  let ?T = "analyze_document_task e n task_id q p w"
  obtain out w' where T: "?T = (out, w')"
    by (cases ?T)
  have calls: "engine_calls w' = engine_calls w @ [(q, p, path_exists w p)]"
    using task_calls [of e n task_id q p w] by (simp add: T)
  have gone: "files w' p = None"
    using task_file_removed [OF "1.prems", of n task_id q p w] by (simp add: T)
  show ?case
  proof (cases "\<exists>m c mr. out = Inl (Retry m c mr)")
    case True
    then obtain m c mr where R: "out = Inl (Retry m c mr)" by blast
    have D: "deliver e n task_id q p w = deliver e (n + 1) task_id q p (redeliver n c w')"
      using deliver_retry [of e n task_id q p w m c mr] by (simp add: T R)
    from "1.IH" [OF T [symmetric] R refl "1.prems"] obtain cs where
      cs: "engine_calls (snd (deliver e (n + 1) task_id q p (redeliver n c w'))) =
             engine_calls (redeliver n c w') @ (q, p, path_exists (redeliver n c w') p) # cs"
      and fl: "list_all (\<lambda>c. \<not> snd (snd c)) cs"
      by blast
    have ne: "\<not> path_exists (redeliver n c w') p"
      by (simp add: path_exists_def redeliver_fields gone)
    show ?thesis
      unfolding D cs using fl ne by (simp add: redeliver_fields calls)
  next
    case False
    then have "deliver e n task_id q p w = ?T"
      by (subst deliver.simps) (auto simp: T split: sum.splits exc.splits)
    then show ?thesis
      by (simp add: T calls)
  qed
qed


lemma attempts_retry: "attempts ss \<Longrightarrow> attempts (''processing'' # ''failed'' # ss)"
  by (cases ss) simp_all

lemma deliver_writes_last:
  assumes r: "query_first w task_id = Some r"
    and D: "deliver e n task_id q p w = analyze_document_task e n task_id q p w"
    and W: "writes (snd (analyze_document_task e n task_id q p w)) =
              writes w @ [r\<lparr>status := ''processing''\<rparr>, r']"
    and S: "map rec_id (store (snd (analyze_document_task e n task_id q p w))) =
              map rec_id (store w)"
    and r': "rec_id r' = rec_id r" "status r' = ''completed'' \<or> status r' = ''failed''"
      "result r = None \<longrightarrow> outcome_inv r'"
  shows "\<exists>ws. writes (snd (deliver e n task_id q p w)) = writes w @ ws
           \<and> attempts (map status ws)
           \<and> list_all (\<lambda>x. rec_id x = task_id) ws
           \<and> (result r = None \<longrightarrow> list_all outcome_inv ws)
           \<and> map rec_id (store (snd (deliver e n task_id q p w))) = map rec_id (store w)"
proof -
  have id: "rec_id r = task_id" using r by (rule query_first_rec_id)
  let ?ws = "[r\<lparr>status := ''processing''\<rparr>, r']"
  have 1: "writes (snd (deliver e n task_id q p w)) = writes w @ ?ws"
    unfolding D by (rule W)
  have 2: "attempts (map status ?ws)" using r'(2) by simp
  have 3: "list_all (\<lambda>x. rec_id x = task_id) ?ws" using id r'(1) by simp
  have 4: "result r = None \<longrightarrow> list_all outcome_inv ?ws"
    using r'(3) by (simp add: outcome_inv_def)
  have 5: "map rec_id (store (snd (deliver e n task_id q p w))) = map rec_id (store w)"
    unfolding D by (rule S)
  show ?thesis
    by (rule exI [of _ ?ws]) (intro conjI 1 2 3 4 5)
qed

lemma deliver_writes:
  assumes "query_first w task_id = Some r"
  shows "\<exists>ws. writes (snd (deliver e n task_id q p w)) = writes w @ ws
           \<and> attempts (map status ws)
           \<and> list_all (\<lambda>x. rec_id x = task_id) ws
           \<and> (result r = None \<longrightarrow> list_all outcome_inv ws)
           \<and> map rec_id (store (snd (deliver e n task_id q p w))) = map rec_id (store w)"
  using assms
proof (induction "2 - n" arbitrary: n w r)
  case 0
  then have n: "2 \<le> n" by simp
  obtain out dt where k: "kickoff e (commit (r\<lparr>status := ''processing''\<rparr>) w) q p = (out, dt)"
    by (cases "kickoff e (commit (r\<lparr>status := ''processing''\<rparr>) w) q p")
  show ?case
  proof (cases out)
    case (Inl msg)
    note P = task_failure_proj [OF "0.prems" k [unfolded Inl], of n]
    have f: "fst (analyze_document_task e n task_id q p w) = Inl (Error msg)"
      using P(1) n by (simp add: retry_def)
    show ?thesis
      by (rule deliver_writes_last [OF "0.prems" deliver_raised [OF f] P(2) P(6)])
         (simp_all add: outcome_inv_def)
  next
    case (Inr res)
    note P = task_success_proj [OF "0.prems" k [unfolded Inr], of n]
    show ?thesis
      by (rule deliver_writes_last [OF "0.prems" deliver_returned [OF P(1)] P(2) P(5)])
         (simp_all add: outcome_inv_def)
  qed
next
  case (Suc j)
  then have n: "n < 2" and j: "j = 2 - (n + 1)" by simp_all
  have id: "rec_id r = task_id" using Suc.prems by (rule query_first_rec_id)
  obtain out dt where k: "kickoff e (commit (r\<lparr>status := ''processing''\<rparr>) w) q p = (out, dt)"
    by (cases "kickoff e (commit (r\<lparr>status := ''processing''\<rparr>) w) q p")
  show ?case
  proof (cases out)
    case (Inl msg)
    note P = task_failure_proj [OF Suc.prems k [unfolded Inl], of n]
    let ?T = "analyze_document_task e n task_id q p w"
    let ?w' = "redeliver n 5 (snd ?T)"
    let ?rp = "r\<lparr>status := ''processing''\<rparr>"
    let ?rf = "r\<lparr>status := ''failed'', error := Some msg,
              completed_at := Some (clock w + dt), duration_seconds := Some dt\<rparr>"
    have f: "fst ?T = Inl (Retry msg 5 2)"
      using P(1) n by (simp add: retry_def)
    have D: "deliver e n task_id q p w = deliver e (n + 1) task_id q p ?w'"
      using f by (rule deliver_retry)
    have q': "query_first ?w' task_id = Some ?rf"
      by (simp add: query_first_redeliver P(3))
    from Suc.hyps(1) [OF j q'] obtain ws where
      H: "writes (snd (deliver e (n + 1) task_id q p ?w')) = writes ?w' @ ws
          \<and> attempts (map status ws)
          \<and> list_all (\<lambda>x. rec_id x = task_id) ws
          \<and> (result ?rf = None \<longrightarrow> list_all outcome_inv ws)
          \<and> map rec_id (store (snd (deliver e (n + 1) task_id q p ?w'))) = map rec_id (store ?w')"
      ..
    note W = H [THEN conjunct1]
    note A = H [THEN conjunct2, THEN conjunct1]
    note I = H [THEN conjunct2, THEN conjunct2, THEN conjunct1]
    note O = H [THEN conjunct2, THEN conjunct2, THEN conjunct2, THEN conjunct1]
    note S = H [THEN conjunct2, THEN conjunct2, THEN conjunct2, THEN conjunct2]
    have 1: "writes (snd (deliver e n task_id q p w)) = writes w @ (?rp # ?rf # ws)"
      unfolding D W by (simp add: redeliver_fields P(2))
    have 2: "attempts (map status (?rp # ?rf # ws))"
      using attempts_retry [OF A] by simp
    have 3: "list_all (\<lambda>x. rec_id x = task_id) (?rp # ?rf # ws)"
      using I id by simp
    have 4: "result r = None \<longrightarrow> list_all outcome_inv (?rp # ?rf # ws)"
      using O by (simp add: outcome_inv_def)
    have 5: "map rec_id (store (snd (deliver e n task_id q p w))) = map rec_id (store w)"
      unfolding D S by (simp add: redeliver_fields P(6))
    show ?thesis
      by (rule exI [of _ "?rp # ?rf # ws"]) (intro conjI 1 2 3 4 5)
  next
    case (Inr res)
    note P = task_success_proj [OF Suc.prems k [unfolded Inr], of n]
    show ?thesis
      by (rule deliver_writes_last [OF Suc.prems deliver_returned [OF P(1)] P(2) P(5)])
         (simp_all add: outcome_inv_def)
  qed
qed

subsection \<open>Writes of the endpoints\<close>

lemma count_fresh:
  assumes "task_id \<notin> rec_id ` set (store w)"
    and "map rec_id (store w') = map rec_id (store w) @ [task_id]"
  shows "length (filter (\<lambda>x. rec_id x = task_id) (store w')) = 1"
proof -
  have "length (filter (\<lambda>x. rec_id x = task_id) (store w'))
          = length (filter (\<lambda>i. i = task_id) (map rec_id (store w')))"
    by (simp add: filter_map comp_def)
  also have "\<dots> = length (filter (\<lambda>i. i = task_id) (map rec_id (store w))) + 1"
    by (simp add: assms(2))
  also have "filter (\<lambda>i. i = task_id) (map rec_id (store w)) = []"
    using assms(1) by (auto simp: filter_empty_conv)
  finally show ?thesis by simp
qed

lemma sync_proj:
  assumes v: "endswith (lower fname) ''.pdf''"
    and fresh: "task_id \<notin> rec_id ` set (store w)"
  shows "map rec_id (store (snd (analyze_document e fname q content task_id w))) =
           map rec_id (store w) @ [task_id]"
    and "map status (new_writes w (snd (analyze_document e fname q content task_id w))) =
           [''processing'', ''completed'']
         \<or> map status (new_writes w (snd (analyze_document e fname q content task_id w))) =
           [''processing'', ''failed'']"
    and "list_all job_inv (new_writes w (snd (analyze_document e fname q content task_id w)))"
proof -
  define rec where "rec = new_record task_id fname (normalize_query q) ''processing'' (clock w)"
  define w2 where "w2 = add_commit rec (write_file (document_path task_id) content w)"
  obtain out dt where k: "kickoff e w2 (normalize_query q) (document_path task_id) = (out, dt)"
    by (cases "kickoff e w2 (normalize_query q) (document_path task_id)")
  have ids: "map rec_id (store w2) = map rec_id (store w) @ [task_id]"
    by (simp add: w2_def rec_def add_commit_fields write_file_fields new_record_fields)
  have wr: "writes w2 = writes w @ [rec]"
    by (simp add: w2_def add_commit_fields write_file_fields)
  have A: "map rec_id (store (snd (analyze_document e fname q content task_id w))) =
             map rec_id (store w) @ [task_id]
         \<and> (map status (new_writes w (snd (analyze_document e fname q content task_id w))) =
           [''processing'', ''completed'']
         \<or> map status (new_writes w (snd (analyze_document e fname q content task_id w))) =
           [''processing'', ''failed''])
         \<and> list_all job_inv (new_writes w (snd (analyze_document e fname q content task_id w)))"
  proof (cases out)
    case (Inl msg)
    show ?thesis
      by (simp add: sync_failure [OF v fresh rec_def w2_def k [unfolded Inl]]
            cleanup_fields rec_ids_commit commit_fields after_crew_fields ids wr new_writes_def
            job_inv_def)
         (simp add: rec_def new_record_fields)
  next
    case (Inr res)
    show ?thesis
      by (simp add: sync_success [OF v rec_def w2_def k [unfolded Inr]]
            cleanup_fields rec_ids_commit commit_fields after_crew_fields ids wr new_writes_def
            job_inv_def)
         (simp add: rec_def new_record_fields)
  qed
  from A show "map rec_id (store (snd (analyze_document e fname q content task_id w))) =
           map rec_id (store w) @ [task_id]" by (rule conjunct1)
  from A show "map status (new_writes w (snd (analyze_document e fname q content task_id w))) =
           [''processing'', ''completed'']
         \<or> map status (new_writes w (snd (analyze_document e fname q content task_id w))) =
           [''processing'', ''failed'']" by (rule conjunct2 [THEN conjunct1])
  from A show "list_all job_inv (new_writes w (snd (analyze_document e fname q content task_id w)))"
    by (rule conjunct2 [THEN conjunct2])
qed

lemma async_proj:
  assumes v: "endswith (lower fname) ''.pdf''" and imp: "worker_importable e"
  shows "map rec_id (store (snd (analyze_document_async e fname q content task_id w))) =
           map rec_id (store w) @ [task_id]"
    and "map status (new_writes w (snd (analyze_document_async e fname q content task_id w))) =
           [''queued'']"
  using v imp
  by (simp_all add: analyze_document_async_def apply_async_def Let_def add_commit_fields
        write_file_fields new_record_fields new_writes_def split: option.splits)

lemma async_job_inv:
  "list_all job_inv (new_writes w (snd (analyze_document_async e fname q content task_id w)))"
  by (simp add: analyze_document_async_def apply_async_def Let_def add_commit_fields
        write_file_fields new_record_fields new_writes_def job_inv_def split: option.splits)

lemma task_job_inv:
  assumes r: "query_first w task_id = Some r"
    and clean: "result r = None" "error r = None"
  shows "list_all job_inv (new_writes w (snd (analyze_document_task e n task_id q p w)))"
proof -
  obtain out dt where k: "kickoff e (commit (r\<lparr>status := ''processing''\<rparr>) w) q p = (out, dt)"
    by (cases "kickoff e (commit (r\<lparr>status := ''processing''\<rparr>) w) q p")
  show ?thesis
  proof (cases out)
    case (Inl msg)
    show ?thesis
      using clean
      by (simp add: new_writes_def task_failure_proj(2) [OF r k [unfolded Inl]] job_inv_def)
  next
    case (Inr res)
    show ?thesis
      using clean
      by (simp add: new_writes_def task_success_proj(2) [OF r k [unfolded Inr]] job_inv_def)
  qed
qed

subsection \<open>A concrete retried job\<close>

lemma new_writes_append: "writes w' = writes w @ ws \<Longrightarrow> new_writes w w' = ws"
  by (simp add: new_writes_def)

lemma new_calls_append: "engine_calls w' = engine_calls w @ cs \<Longrightarrow> new_calls w w' = cs"
  by (simp add: new_calls_def)

lemma flaky_chain:
  "map (\<lambda>r. (status r, result r, error r))
     (new_writes world1
        (snd (deliver env_flaky 0 ''t1'' ''Summarise'' (document_path ''t1'') world1))) =
   [(''processing'', None, None), (''failed'', None, Some ''boom''),
    (''processing'', None, Some ''boom''), (''completed'', Some ''report'', Some ''boom'')]"
  apply (subst deliver.simps)
  apply (simp add: run_defs env_flaky_def env_ok_def crew_flaky_def world1_def world0_def job1_def)
  apply (subst deliver.simps)
  apply (simp add: run_defs env_flaky_def env_ok_def crew_flaky_def new_writes_def)
  done

lemma world1_facts:
  "query_first world1 ''t1'' = Some job1"
  "''t2'' \<notin> rec_id ` set (store world1)"
  "result job1 = None" "error job1 = None"
  "files world1 (document_path ''t1'') = Some ''%PDF''"
  "path_exists world1 (document_path ''t1'')"
  by (simp_all add: query_first_def world1_def world0_def job1_def path_exists_def)

subsection \<open>The history listing\<close>

lemma order_desc_sorted:
  "sorted_wrt (\<lambda>a b. created_at b \<le> created_at a) (order_by_created_at_desc rs)"
proof -
  have "sorted (map created_at (sort_key created_at rs))"
    by (rule sorted_sort_key)
  then have "sorted_wrt (\<lambda>a b. created_at a \<le> created_at b) (sort_key created_at rs)"
    by (simp add: sorted_wrt_map)
  then show ?thesis
    by (simp add: order_by_created_at_desc_def sorted_wrt_rev)
qed

lemma sql_limit_sorted:
  "sorted_wrt P rs \<Longrightarrow> sorted_wrt P (sql_limit n rs)"
  by (simp add: sql_limit_def sorted_wrt_take)

lemma history_sorted:
  "sorted_wrt (\<lambda>a b. sum_created_at b \<le> sum_created_at a)
     (records (get_analysis_history limit status_filter w))"
proof -
  have "sorted_wrt (\<lambda>a b. created_at b \<le> created_at a)
          (case status_filter of
             Some s \<Rightarrow> if s \<noteq> [] then filter (\<lambda>r. status r = s)
                                      (order_by_created_at_desc (store w))
                       else order_by_created_at_desc (store w)
           | None \<Rightarrow> order_by_created_at_desc (store w))"
    by (simp add: order_desc_sorted sorted_wrt_filter split: option.splits)
  then show ?thesis
    by (simp add: get_analysis_history_def Let_def sorted_wrt_map summarize_def sql_limit_sorted)
qed

lemma history_bounded:
  assumes "0 \<le> limit"
  shows "total (get_analysis_history limit status_filter w) \<le> nat (min limit 100)"
    and "total (get_analysis_history limit status_filter w) \<le> 100"
    and "total (get_analysis_history limit status_filter w)
           = length (records (get_analysis_history limit status_filter w))"
proof -
  have n: "\<not> min limit 100 < 0" "nat (min limit 100) \<le> 100"
    using assms by simp_all
  show "total (get_analysis_history limit status_filter w) \<le> nat (min limit 100)"
    by (simp add: get_analysis_history_def Let_def sql_limit_def n(1))
  then show "total (get_analysis_history limit status_filter w) \<le> 100"
    using n(2) by (rule order_trans)
  show "total (get_analysis_history limit status_filter w)
           = length (records (get_analysis_history limit status_filter w))"
    by (simp add: get_analysis_history_def Let_def)
qed

lemma history_all:
  assumes "0 \<le> limit" and "int (length (store w)) \<le> limit" and "length (store w) \<le> 100"
  shows "total (get_analysis_history limit None w) = length (store w)"
    and "set (map sum_task_id (records (get_analysis_history limit None w)))
           = set (map rec_id (store w))"
proof -
  have l: "length (order_by_created_at_desc (store w)) = length (store w)"
    by (simp add: order_by_created_at_desc_def)
  have t: "sql_limit (min limit 100) (order_by_created_at_desc (store w))
             = order_by_created_at_desc (store w)"
    using assms l by (simp add: sql_limit_def)
  show "total (get_analysis_history limit None w) = length (store w)"
    by (simp add: get_analysis_history_def Let_def t l)
  have "set (order_by_created_at_desc (store w)) = set (store w)"
    by (simp add: order_by_created_at_desc_def)
  then have "rec_id ` set (order_by_created_at_desc (store w)) = rec_id ` set (store w)"
    by simp
  then show "set (map sum_task_id (records (get_analysis_history limit None w)))
           = set (map rec_id (store w))"
    by (simp add: get_analysis_history_def Let_def t summarize_def image_image)
qed

lemma history_negative_limit:
  assumes "limit < 0"
  shows "total (get_analysis_history limit None w) = length (store w)"
  using assms
  by (simp add: get_analysis_history_def Let_def sql_limit_def order_by_created_at_desc_def)

subsection \<open>The asynchronous endpoint without its queue\<close>

lemma async_no_worker:
  "\<not> worker_importable e \<Longrightarrow>
   analyze_document_async e fname q content task_id w =
     (Inl (HTTPException 503
        ''Queue worker unavailable. Ensure Redis is running and Celery is installed.''), w)"
  by (simp add: analyze_document_async_def)

lemma async_enqueue_error:
  assumes "endswith (lower fname) ''.pdf''" and "worker_importable e"
    and "enqueue_error e = Some msg"
  shows "fst (analyze_document_async e fname q content task_id w) = Inl (Error msg)"
  using assms by (simp add: analyze_document_async_def apply_async_def Let_def)

section \<open>Properties of the specification\<close>

text \<open>
  C1. An asynchronous submission of a PDF while the worker module can be imported but
  the broker refuses the message: \<open>apply_async\<close> raises after the queued record was
  committed and the file written, and nothing catches it. The caller gets that exception
  and not the 503 error, and the queued record and the file stay behind.
\<close>

theorem async_broker_down_orphan:
  "fst (analyze_document_async env_broker_down ''report.pdf'' [] ''%PDF'' ''t1'' world0)
     = Inl (Error ''Connection refused'')
   \<and> map (\<lambda>r. (rec_id r, status r))
        (store (snd (analyze_document_async env_broker_down ''report.pdf'' [] ''%PDF'' ''t1'' world0)))
     = [(''t1'', ''queued'')]
   \<and> files (snd (analyze_document_async env_broker_down ''report.pdf'' [] ''%PDF'' ''t1'' world0))
        (document_path ''t1'') = Some ''%PDF''"
  by (simp add: analyze_document_async_def env_broker_down_def env_ok_def world0_def
        endswith_report_pdf apply_async_def Let_def add_commit_def
        new_record_def write_file_def)

text \<open>
  C2. Every record written by the synchronous endpoint (under a fresh id), by the
  asynchronous endpoint, and by one run of the task on a job whose record has neither
  result nor error, satisfies the invariant of a job record. Over all the deliveries of
  such a job, retried ones included, every record written has its result set exactly when
  it is completed, and an error when it is failed.
\<close>

theorem job_invariant_writes:
  assumes v: "endswith (lower fname) ''.pdf''"
    and fresh: "task_id \<notin> rec_id ` set (store w)"
    and r: "query_first jw job_id = Some r"
    and clean: "result r = None" "error r = None"
  shows "list_all job_inv (new_writes w (snd (analyze_document e fname q content task_id w)))
       \<and> list_all job_inv
           (new_writes w (snd (analyze_document_async e fname q content task_id w)))
       \<and> list_all job_inv (new_writes jw (snd (analyze_document_task e n job_id jq p jw)))
       \<and> list_all outcome_inv (new_writes jw (snd (deliver e n job_id jq p jw)))"
proof (intro conjI)
  show "list_all job_inv (new_writes w (snd (analyze_document e fname q content task_id w)))"
    using v fresh by (rule sync_proj(3))
  show "list_all job_inv
           (new_writes w (snd (analyze_document_async e fname q content task_id w)))"
    by (rule async_job_inv)
  show "list_all job_inv (new_writes jw (snd (analyze_document_task e n job_id jq p jw)))"
    using r clean by (rule task_job_inv)
  from deliver_writes [OF r, of e n jq p] obtain ws where
    H: "writes (snd (deliver e n job_id jq p jw)) = writes jw @ ws
        \<and> attempts (map status ws)
        \<and> list_all (\<lambda>x. rec_id x = job_id) ws
        \<and> (result r = None \<longrightarrow> list_all outcome_inv ws)
        \<and> map rec_id (store (snd (deliver e n job_id jq p jw))) = map rec_id (store jw)"
    ..
  have "new_writes jw (snd (deliver e n job_id jq p jw)) = ws"
    using H [THEN conjunct1] by (rule new_writes_append)
  moreover have "list_all outcome_inv ws"
    using H [THEN conjunct2, THEN conjunct2, THEN conjunct2, THEN conjunct1] clean(1) by simp
  ultimately show "list_all outcome_inv (new_writes jw (snd (deliver e n job_id jq p jw)))"
    by simp
qed

theorem job_invariant_writes_witness:
  "endswith (lower ''report.pdf'') ''.pdf''
   \<and> ''t2'' \<notin> rec_id ` set (store world1)
   \<and> query_first world1 ''t1'' = Some job1 \<and> result job1 = None \<and> error job1 = None
   \<and> list_all job_inv
       (new_writes world1 (snd (analyze_document env_fails ''report.pdf'' [] ''%PDF'' ''t2'' world1)))
   \<and> list_all job_inv
       (new_writes world1
          (snd (analyze_document_async env_fails ''report.pdf'' [] ''%PDF'' ''t2'' world1)))
   \<and> list_all job_inv
       (new_writes world1
          (snd (analyze_document_task env_fails 0 ''t1'' ''Summarise'' (document_path ''t1'')
             world1)))
   \<and> list_all outcome_inv
       (new_writes world1
          (snd (deliver env_fails 0 ''t1'' ''Summarise'' (document_path ''t1'') world1)))"
  using endswith_report_pdf world1_facts(1-4)
    job_invariant_writes [OF endswith_report_pdf world1_facts(2) world1_facts(1)
      world1_facts(3) world1_facts(4), where e = env_fails and q = "[]" and content = "''%PDF''"
      and n = 0 and jq = "''Summarise''" and p = "document_path ''t1''"]
  by simp

text \<open>
  A job that fails once and then succeeds: the retried attempt writes \<open>processing\<close> with
  the error of the first attempt still set, and \<open>completed\<close> with both fields set.
\<close>

theorem retried_job_breaks_invariant:
  "\<not> list_all job_inv
       (new_writes world1
          (snd (deliver env_flaky 0 ''t1'' ''Summarise'' (document_path ''t1'') world1)))"
proof
  assume "list_all job_inv
       (new_writes world1
          (snd (deliver env_flaky 0 ''t1'' ''Summarise'' (document_path ''t1'') world1)))"
  then have "list_all (\<lambda>t. ((fst t = ''completed'' \<or> fst t = ''failed'')
                 \<longrightarrow> (fst (snd t) = None) \<noteq> (snd (snd t) = None))
               \<and> ((fst t = ''queued'' \<or> fst t = ''processing'')
                 \<longrightarrow> fst (snd t) = None \<and> snd (snd t) = None))
           (map (\<lambda>r. (status r, result r, error r))
              (new_writes world1
                (snd (deliver env_flaky 0 ''t1'' ''Summarise'' (document_path ''t1'') world1))))"
    by (simp add: list_all_iff job_inv_def)
  then show False
    unfolding flaky_chain by simp
qed

text \<open>
  C3. The task run for an id that has no record writes nothing to the table, but it does
  call the crew, once, and ends as the crew does: it returns the completed result, or
  raises what \<open>self.retry\<close> raises. No not-found condition is signalled.
\<close>

theorem task_without_record:
  assumes "query_first w task_id = None"
  shows "store (snd (analyze_document_task e retries task_id q file_path w)) = store w
    \<and> writes (snd (analyze_document_task e retries task_id q file_path w)) = writes w
    \<and> engine_calls (snd (analyze_document_task e retries task_id q file_path w))
        = engine_calls w @ [(q, file_path, path_exists w file_path)]
    \<and> fst (analyze_document_task e retries task_id q file_path w)
        = (case fst (kickoff e w q file_path) of
             Inr res \<Rightarrow> Inr \<lparr>tres_status = ''completed'', tres_result = res\<rparr>
           | Inl msg \<Rightarrow> Inl (retry retries msg 5 2))"
  using assms
  by (auto simp: analyze_document_task_def analyze_document_task_try_def run_crew_def
        after_crew_def query_first_def cleanup_def Let_def split: prod.splits sum.splits)

theorem task_without_record_witness:
  "query_first world0 ''ghost'' = None
   \<and> store (snd (analyze_document_task env_fails 0 ''ghost'' ''q'' ''data/x.pdf'' world0)) = []
   \<and> writes (snd (analyze_document_task env_fails 0 ''ghost'' ''q'' ''data/x.pdf'' world0)) = []
   \<and> engine_calls (snd (analyze_document_task env_fails 0 ''ghost'' ''q'' ''data/x.pdf'' world0))
        = [(''q'', ''data/x.pdf'', False)]
   \<and> fst (analyze_document_task env_fails 0 ''ghost'' ''q'' ''data/x.pdf'' world0)
        = Inl (Retry ''boom'' 5 2)"
proof -
  have h: "query_first world0 ''ghost'' = None"
    by (simp add: query_first_def world0_def)
  have k: "kickoff env_fails world0 ''q'' ''data/x.pdf'' = (Inl ''boom'', 1)"
    by (simp add: env_fails_def crew_fails_def)
  have s: "store world0 = []" "writes world0 = []" "engine_calls world0 = []"
    "path_exists world0 ''data/x.pdf'' = False"
    by (simp_all add: world0_def path_exists_def)
  show ?thesis
    using h task_without_record [OF h, of env_fails 0 "''q''" "''data/x.pdf''"]
    by (simp add: k s retry_def)
qed

text \<open>
  On an empty table the task for the id \<open>ghost\<close> calls the crew and returns its report.
\<close>

theorem task_without_record_runs_crew:
  "fst (analyze_document_task env_ok 0 ''ghost'' ''q'' ''data/x.pdf'' world0)
     = Inr \<lparr>tres_status = ''completed'', tres_result = ''report''\<rparr>
   \<and> engine_calls (snd (analyze_document_task env_ok 0 ''ghost'' ''q'' ''data/x.pdf'' world0))
     = [(''q'', ''data/x.pdf'', False)]"
  by (simp add: analyze_document_task_def analyze_document_task_try_def env_ok_def world0_def
        crew_ok_def run_crew_def after_crew_def query_first_def cleanup_def path_exists_def Let_def)

text \<open>
  C4. A synchronous submission of a PDF under a fresh id that ends in an exception has
  run the crew after the record was created. The caller gets the 500 error with the
  message of the failure, the record is \<open>failed\<close> with that message as its error and
  \<open>completed_at\<close> stamped, but \<open>duration_seconds\<close> is left unset: the handler of
  main.py does not assign it, where the handler of worker.py does.
\<close>

theorem sync_failure_record:
  assumes v: "endswith (lower fname) ''.pdf''"
    and fresh: "task_id \<notin> rec_id ` set (store w)"
    and f: "fst (analyze_document e fname q content task_id w) = Inl x"
  shows "\<exists>msg r. x = HTTPException 500 (''Error processing document: '' @ msg)
           \<and> query_first (snd (analyze_document e fname q content task_id w)) task_id = Some r
           \<and> status r = ''failed'' \<and> error r = Some msg
           \<and> completed_at r \<noteq> None \<and> duration_seconds r = None"
proof -
  define rec where "rec = new_record task_id fname (normalize_query q) ''processing'' (clock w)"
  define w2 where "w2 = add_commit rec (write_file (document_path task_id) content w)"
  obtain out dt where k: "kickoff e w2 (normalize_query q) (document_path task_id) = (out, dt)"
    by (cases "kickoff e w2 (normalize_query q) (document_path task_id)")
  show ?thesis
  proof (cases out)
    case (Inl msg)
    let ?rf = "rec\<lparr>status := ''failed'', error := Some msg, completed_at := Some (clock w + dt)\<rparr>"
    let ?w3 = "after_crew (normalize_query q) (document_path task_id) dt w2"
    note A = sync_failure [OF v fresh rec_def w2_def k [unfolded Inl]]
    have id: "rec_id rec = task_id" by (simp add: rec_def new_record_fields)
    have "query_first w2 task_id = Some rec"
      using query_first_add_commit [of rec "write_file (document_path task_id) content w"] fresh
      by (simp add: w2_def id write_file_fields)
    then have "query_first ?w3 task_id = Some rec"
      by (simp add: query_first_after_crew)
    then have "query_first (commit ?rf ?w3) task_id = Some ?rf"
      using query_first_commit [of ?w3 ?rf rec] id by simp
    then have Q: "query_first (snd (analyze_document e fname q content task_id w)) task_id = Some ?rf"
      by (simp add: A query_first_cleanup)
    have X: "x = HTTPException 500 (''Error processing document: '' @ msg)"
      using f by (simp add: A)
    have "duration_seconds ?rf = None"
      by (simp add: rec_def new_record_fields)
    with Q X show ?thesis by simp
  next
    case (Inr res)
    from sync_success [OF v rec_def w2_def k [unfolded Inr]] f show ?thesis by simp
  qed
qed

theorem sync_failure_record_witness:
  "endswith (lower ''report.pdf'') ''.pdf''
   \<and> ''t1'' \<notin> rec_id ` set (store world0)
   \<and> fst (analyze_document env_fails ''report.pdf'' [] ''%PDF'' ''t1'' world0)
       = Inl (HTTPException 500 ''Error processing document: boom'')
   \<and> (\<exists>r. query_first (snd (analyze_document env_fails ''report.pdf'' [] ''%PDF'' ''t1'' world0))
               ''t1'' = Some r
          \<and> status r = ''failed'' \<and> error r = Some ''boom''
          \<and> completed_at r \<noteq> None \<and> duration_seconds r = None)"
proof -
  have h2: "''t1'' \<notin> rec_id ` set (store world0)"
    by (simp add: world0_def)
  have h3: "fst (analyze_document env_fails ''report.pdf'' [] ''%PDF'' ''t1'' world0)
       = Inl (HTTPException 500 ''Error processing document: boom'')"
    by (simp add: run_defs endswith_report_pdf env_fails_def crew_fails_def world0_def)
  show ?thesis
    using endswith_report_pdf h2 h3
      sync_failure_record [OF endswith_report_pdf h2 h3]
    by auto
qed

text \<open>
  C5. Under a fresh id exactly one record carries the id after a submission. The
  synchronous endpoint writes \<open>processing\<close> and then one terminal state, the asynchronous
  one writes \<open>queued\<close>. The deliveries of a job write, attempt by attempt, \<open>processing\<close>
  and then a terminal state, only for the record of that job, and leave the ids of the
  table as they are; every attempt that is followed by another one has written \<open>failed\<close>,
  so a retried job goes from \<open>failed\<close> to \<open>processing\<close> again.
\<close>

theorem status_sequence:
  assumes v: "endswith (lower fname) ''.pdf''"
    and imp: "worker_importable e"
    and fresh: "task_id \<notin> rec_id ` set (store w)"
    and r: "query_first jw job_id = Some r"
  shows "(map status (new_writes w (snd (analyze_document e fname q content task_id w))) =
            [''processing'', ''completed'']
          \<or> map status (new_writes w (snd (analyze_document e fname q content task_id w))) =
            [''processing'', ''failed''])
       \<and> length (filter (\<lambda>x. rec_id x = task_id)
                   (store (snd (analyze_document e fname q content task_id w)))) = 1
       \<and> map status (new_writes w (snd (analyze_document_async e fname q content task_id w))) =
            [''queued'']
       \<and> length (filter (\<lambda>x. rec_id x = task_id)
                   (store (snd (analyze_document_async e fname q content task_id w)))) = 1
       \<and> attempts (map status (new_writes jw (snd (deliver e 0 job_id jq p jw))))
       \<and> list_all (\<lambda>x. rec_id x = job_id) (new_writes jw (snd (deliver e 0 job_id jq p jw)))
       \<and> map rec_id (store (snd (deliver e 0 job_id jq p jw))) = map rec_id (store jw)"
proof -
  from deliver_writes [OF r, of e 0 jq p] obtain ws where
    H: "writes (snd (deliver e 0 job_id jq p jw)) = writes jw @ ws
        \<and> attempts (map status ws)
        \<and> list_all (\<lambda>x. rec_id x = job_id) ws
        \<and> (result r = None \<longrightarrow> list_all outcome_inv ws)
        \<and> map rec_id (store (snd (deliver e 0 job_id jq p jw))) = map rec_id (store jw)"
    ..
  have N: "new_writes jw (snd (deliver e 0 job_id jq p jw)) = ws"
    using H [THEN conjunct1] by (rule new_writes_append)
  show ?thesis
  proof (intro conjI)
    show "map status (new_writes w (snd (analyze_document e fname q content task_id w))) =
            [''processing'', ''completed'']
          \<or> map status (new_writes w (snd (analyze_document e fname q content task_id w))) =
            [''processing'', ''failed'']"
      using v fresh by (rule sync_proj(2))
    show "length (filter (\<lambda>x. rec_id x = task_id)
                   (store (snd (analyze_document e fname q content task_id w)))) = 1"
      using fresh sync_proj(1) [OF v fresh] by (rule count_fresh)
    show "map status (new_writes w (snd (analyze_document_async e fname q content task_id w))) =
            [''queued'']"
      using v imp by (rule async_proj(2))
    show "length (filter (\<lambda>x. rec_id x = task_id)
                   (store (snd (analyze_document_async e fname q content task_id w)))) = 1"
      using fresh async_proj(1) [OF v imp] by (rule count_fresh)
    show "attempts (map status (new_writes jw (snd (deliver e 0 job_id jq p jw))))"
      unfolding N by (rule H [THEN conjunct2, THEN conjunct1])
    show "list_all (\<lambda>x. rec_id x = job_id) (new_writes jw (snd (deliver e 0 job_id jq p jw)))"
      unfolding N by (rule H [THEN conjunct2, THEN conjunct2, THEN conjunct1])
    show "map rec_id (store (snd (deliver e 0 job_id jq p jw))) = map rec_id (store jw)"
      by (rule H [THEN conjunct2, THEN conjunct2, THEN conjunct2, THEN conjunct2])
  qed
qed

theorem status_sequence_witness:
  "endswith (lower ''report.pdf'') ''.pdf'' \<and> worker_importable env_flaky
   \<and> ''t2'' \<notin> rec_id ` set (store world1) \<and> query_first world1 ''t1'' = Some job1
   \<and> (map status
         (new_writes world1
            (snd (analyze_document env_flaky ''report.pdf'' [] ''%PDF'' ''t2'' world1))) =
            [''processing'', ''completed'']
       \<or> map status
         (new_writes world1
            (snd (analyze_document env_flaky ''report.pdf'' [] ''%PDF'' ''t2'' world1))) =
            [''processing'', ''failed''])
   \<and> length (filter (\<lambda>x. rec_id x = ''t2'')
        (store (snd (analyze_document env_flaky ''report.pdf'' [] ''%PDF'' ''t2'' world1)))) = 1
   \<and> map status
        (new_writes world1
           (snd (analyze_document_async env_flaky ''report.pdf'' [] ''%PDF'' ''t2'' world1))) =
        [''queued'']
   \<and> length (filter (\<lambda>x. rec_id x = ''t2'')
        (store (snd (analyze_document_async env_flaky ''report.pdf'' [] ''%PDF'' ''t2''
           world1)))) = 1
   \<and> attempts (map status
        (new_writes world1
           (snd (deliver env_flaky 0 ''t1'' ''Summarise'' (document_path ''t1'') world1))))
   \<and> list_all (\<lambda>x. rec_id x = ''t1'')
        (new_writes world1
           (snd (deliver env_flaky 0 ''t1'' ''Summarise'' (document_path ''t1'') world1)))
   \<and> map rec_id
        (store (snd (deliver env_flaky 0 ''t1'' ''Summarise'' (document_path ''t1'') world1)))
       = map rec_id (store world1)"
proof -
  have imp: "worker_importable env_flaky"
    by (simp add: env_flaky_def env_ok_def)
  show ?thesis
    using endswith_report_pdf imp world1_facts(1,2)
      status_sequence [OF endswith_report_pdf imp world1_facts(2) world1_facts(1),
        where q = "[]" and content = "''%PDF''" and jq = "''Summarise''"
        and p = "document_path ''t1''"]
    by simp
qed

text \<open>
  A job that fails once and then succeeds is written \<open>failed\<close> and then \<open>processing\<close>:
  the sequence of its states moves backward.
\<close>

theorem retried_job_moves_backward:
  "map status
     (new_writes world1
        (snd (deliver env_flaky 0 ''t1'' ''Summarise'' (document_path ''t1'') world1))) =
     [''processing'', ''failed'', ''processing'', ''completed'']
   \<and> \<not> forward_only
         (map status
            (new_writes world1
               (snd (deliver env_flaky 0 ''t1'' ''Summarise'' (document_path ''t1'') world1))))"
proof -
  have m: "map status
     (new_writes world1
        (snd (deliver env_flaky 0 ''t1'' ''Summarise'' (document_path ''t1'') world1))) =
     map fst (map (\<lambda>r. (status r, result r, error r))
       (new_writes world1
        (snd (deliver env_flaky 0 ''t1'' ''Summarise'' (document_path ''t1'') world1))))"
    by (simp add: comp_def)
  show ?thesis
    unfolding m flaky_chain by (simp add: forward_only_def status_rank_def)
qed

text \<open>
  C6. A job whose record exists is delivered with no retries so far. Each failed attempt
  below the budget asks for one new delivery, with countdown 5; there are at most two of
  them, numbered 0 and 1, and one call of the crew per attempt. When the deliveries end
  in a failure, both retries were used, the failure is the exception of the last attempt
  and not a further \<open>Retry\<close>, and the record is \<open>failed\<close> with that message as its error.
\<close>

theorem retry_budget:
  assumes "query_first w task_id = Some r"
  shows "(new_redeliveries w (snd (deliver e 0 task_id q p w)) = []
          \<or> new_redeliveries w (snd (deliver e 0 task_id q p w)) = [(0, 5)]
          \<or> new_redeliveries w (snd (deliver e 0 task_id q p w)) = [(0, 5), (1, 5)])
       \<and> length (new_calls w (snd (deliver e 0 task_id q p w))) =
           1 + length (new_redeliveries w (snd (deliver e 0 task_id q p w)))
       \<and> (\<forall>x. fst (deliver e 0 task_id q p w) = Inl x \<longrightarrow>
             new_redeliveries w (snd (deliver e 0 task_id q p w)) = [(0, 5), (1, 5)]
             \<and> (\<exists>msg r'. x = Error msg
                   \<and> query_first (snd (deliver e 0 task_id q p w)) task_id = Some r'
                   \<and> status r' = ''failed'' \<and> error r' = Some msg))"
proof -
  let ?D = "deliver e 0 task_id q p w"
  from deliver_budget [OF assms, of 0 e q p] obtain k where k: "k \<le> 2"
    and R: "redeliveries (snd ?D) = redeliveries w @ map (\<lambda>i. (i, 5)) [0..<k]"
    and E: "length (engine_calls (snd ?D)) = length (engine_calls w) + k + 1"
    and F: "\<forall>x. fst ?D = Inl x \<longrightarrow>
              k = 2 \<and> (\<exists>msg r'. x = Error msg \<and> query_first (snd ?D) task_id = Some r'
                         \<and> status r' = ''failed'' \<and> error r' = Some msg)"
    by auto
  have N: "new_redeliveries w (snd ?D) = map (\<lambda>i. (i, 5)) [0..<k]"
    by (simp add: new_redeliveries_def R)
  have L: "length (new_calls w (snd ?D)) = 1 + k"
    by (simp add: new_calls_def E)
  from k have "k = 0 \<or> k = 1 \<or> k = 2" by arith
  then have A: "map (\<lambda>i. (i, 5::nat)) [0..<k] = [] \<or> map (\<lambda>i. (i, 5::nat)) [0..<k] = [(0, 5)]
      \<or> map (\<lambda>i. (i, 5::nat)) [0..<k] = [(0, 5), (1, 5)]"
    by (auto simp: upt_conv_Cons)
  have B: "map (\<lambda>i. (i, 5::nat)) [0..<2] = [(0, 5), (1, 5)]"
    by (simp add: upt_conv_Cons)
  show ?thesis
    unfolding N L using A B F by auto
qed

theorem retry_budget_witness:
  "query_first world1 ''t1'' = Some job1
   \<and> fst (deliver env_fails 0 ''t1'' ''Summarise'' (document_path ''t1'') world1)
       = Inl (Error ''boom'')
   \<and> new_redeliveries world1
        (snd (deliver env_fails 0 ''t1'' ''Summarise'' (document_path ''t1'') world1))
       = [(0, 5), (1, 5)]
   \<and> length (new_calls world1
        (snd (deliver env_fails 0 ''t1'' ''Summarise'' (document_path ''t1'') world1))) = 3
   \<and> (\<exists>r'. query_first
          (snd (deliver env_fails 0 ''t1'' ''Summarise'' (document_path ''t1'') world1)) ''t1''
          = Some r' \<and> status r' = ''failed'' \<and> error r' = Some ''boom'')"
proof -
  have h: "query_first world1 ''t1'' = Some job1"
    by (simp add: query_first_def world1_def world0_def job1_def)
  have f: "fst (deliver env_fails 0 ''t1'' ''Summarise'' (document_path ''t1'') world1)
             = Inl (Error ''boom'')"
    apply (subst deliver.simps)
    apply (simp add: run_defs env_fails_def crew_fails_def world1_def world0_def job1_def)
    apply (subst deliver.simps)
    apply (simp add: run_defs env_fails_def crew_fails_def)
    apply (subst deliver.simps)
    apply (simp add: run_defs env_fails_def crew_fails_def)
    done
  show ?thesis
    using h f retry_budget [OF h, of env_fails "''Summarise''" "document_path ''t1''"]
    by auto
qed

text \<open>
  C7. Both executors end in the same \<open>finally\<close> block. For the worker task and for the
  synchronous endpoint on a PDF: when \<open>os.remove\<close> does not raise, the document is gone
  afterwards, whatever the crew did; and when it does raise, the outcome (the response
  or the exception) and the table are the same as when it does not.
\<close>

theorem cleanup_on_every_exit:
  assumes v: "endswith (lower fname) ''.pdf''" and ok: "\<not> remove_fails e"
  shows "files (snd (analyze_document_task e n task_id q p w)) p = None
       \<and> files (snd (analyze_document e fname sync_q content sync_id sync_w)) (document_path sync_id) = None
       \<and> fst (analyze_document_task (e\<lparr>remove_fails := True\<rparr>) n task_id q p w)
           = fst (analyze_document_task e n task_id q p w)
       \<and> store (snd (analyze_document_task (e\<lparr>remove_fails := True\<rparr>) n task_id q p w))
           = store (snd (analyze_document_task e n task_id q p w))
       \<and> fst (analyze_document (e\<lparr>remove_fails := True\<rparr>) fname sync_q content sync_id sync_w)
           = fst (analyze_document e fname sync_q content sync_id sync_w)
       \<and> store (snd (analyze_document (e\<lparr>remove_fails := True\<rparr>) fname sync_q content sync_id sync_w))
           = store (snd (analyze_document e fname sync_q content sync_id sync_w))"
proof (intro conjI)
  show "files (snd (analyze_document_task e n task_id q p w)) p = None"
    using ok by (rule task_file_removed)
  show "files (snd (analyze_document e fname sync_q content sync_id sync_w)) (document_path sync_id) = None"
    using v ok by (rule sync_file_removed)
  show "fst (analyze_document_task (e\<lparr>remove_fails := True\<rparr>) n task_id q p w)
           = fst (analyze_document_task e n task_id q p w)"
    by (simp add: analyze_document_task_def task_try_remove_fails split: prod.splits)
  show "store (snd (analyze_document_task (e\<lparr>remove_fails := True\<rparr>) n task_id q p w))
           = store (snd (analyze_document_task e n task_id q p w))"
    by (simp add: analyze_document_task_def task_try_remove_fails cleanup_fields
          split: prod.splits)
  show "fst (analyze_document (e\<lparr>remove_fails := True\<rparr>) fname sync_q content sync_id sync_w)
           = fst (analyze_document e fname sync_q content sync_id sync_w)"
    by (simp add: analyze_document_def sync_try_remove_fails split: prod.splits)
  show "store (snd (analyze_document (e\<lparr>remove_fails := True\<rparr>) fname sync_q content sync_id sync_w))
           = store (snd (analyze_document e fname sync_q content sync_id sync_w))"
    by (simp add: analyze_document_def sync_try_remove_fails cleanup_fields
          split: prod.splits)
qed

theorem cleanup_on_every_exit_witness:
  "endswith (lower ''report.pdf'') ''.pdf'' \<and> \<not> remove_fails env_fails
   \<and> files world1 (document_path ''t1'') = Some ''%PDF''
   \<and> files (snd (analyze_document_task env_fails 0 ''t1'' ''Summarise'' (document_path ''t1'')
                    world1)) (document_path ''t1'') = None
   \<and> files (snd (analyze_document env_fails ''report.pdf'' [] ''%PDF'' ''t2'' world1))
        (document_path ''t2'') = None
   \<and> fst (analyze_document_task env_stuck 0 ''t1'' ''Summarise'' (document_path ''t1'') world1)
       = fst (analyze_document_task env_fails 0 ''t1'' ''Summarise'' (document_path ''t1'') world1)
   \<and> store (snd (analyze_document_task env_stuck 0 ''t1'' ''Summarise'' (document_path ''t1'')
                    world1))
       = store (snd (analyze_document_task env_fails 0 ''t1'' ''Summarise'' (document_path ''t1'')
                    world1))
   \<and> fst (analyze_document env_stuck ''report.pdf'' [] ''%PDF'' ''t2'' world1)
       = fst (analyze_document env_fails ''report.pdf'' [] ''%PDF'' ''t2'' world1)
   \<and> store (snd (analyze_document env_stuck ''report.pdf'' [] ''%PDF'' ''t2'' world1))
       = store (snd (analyze_document env_fails ''report.pdf'' [] ''%PDF'' ''t2'' world1))"
proof -
  have ok: "\<not> remove_fails env_fails"
    by (simp add: env_fails_def)
  have f: "files world1 (document_path ''t1'') = Some ''%PDF''"
    by (simp add: world1_def)
  show ?thesis
    using endswith_report_pdf ok f
      cleanup_on_every_exit [OF endswith_report_pdf ok, where n = 0 and task_id = "''t1''"
        and q = "''Summarise''" and p = "document_path ''t1''" and w = world1
        and sync_q = "[]" and content = "''%PDF''" and sync_id = "''t2''" and sync_w = world1]
    unfolding env_stuck_def by blast
qed

text \<open>
  C8. The history with the limit \<open>-1\<close> on a table of 101 jobs with distinct ids:
  \<open>min(limit, 100)\<close> is \<open>-1\<close>, which SQLite takes as no limit, and all 101 records come
  back, one more than the maximum the endpoint documents.
\<close>

theorem history_negative_limit_unbounded:
  "total (get_analysis_history (- 1) None (world_many 101)) = 101
   \<and> distinct (map rec_id (store (world_many 101)))"
proof
  have "length (store (world_many 101)) = 101"
    by (simp add: world_many_def many_jobs_def)
  then show "total (get_analysis_history (- 1) None (world_many 101)) = 101"
    by (simp add: history_negative_limit)
  have "inj_on (\<lambda>i. replicate (Suc i) CHR ''j'') {0..<101}"
    by (rule inj_onI) (metis length_replicate nat.inject)
  then show "distinct (map rec_id (store (world_many 101)))"
    by (simp add: world_many_def many_jobs_def new_record_def comp_def distinct_map)
qed

text \<open>
  C9. A submission whose file name does not end in \<open>.pdf\<close> (in any letter case) changes
  nothing: no record, no file. The synchronous endpoint rejects it with the 400 error;
  so does the asynchronous one when the worker module can be imported. When it cannot,
  the asynchronous endpoint has already answered 503 before it looks at the name.
\<close>

theorem invalid_extension_rejected:
  assumes "\<not> endswith (lower fname) ''.pdf''"
  shows "analyze_document e fname q content task_id w =
           (Inl (HTTPException 400 ''Only PDF files are supported.''), w)
       \<and> analyze_document_async e fname q content task_id w =
           (Inl (if worker_importable e
                 then HTTPException 400 ''Only PDF files are supported.''
                 else HTTPException 503
                   ''Queue worker unavailable. Ensure Redis is running and Celery is installed.''),
            w)"
  using assms by (simp add: analyze_document_def analyze_document_async_def)

theorem invalid_extension_rejected_witness:
  "\<not> endswith (lower ''notes.txt'') ''.pdf''
   \<and> analyze_document env_ok ''notes.txt'' [] ''hello'' ''t1'' world0 =
           (Inl (HTTPException 400 ''Only PDF files are supported.''), world0)
   \<and> analyze_document_async env_ok ''notes.txt'' [] ''hello'' ''t1'' world0 =
           (Inl (HTTPException 400 ''Only PDF files are supported.''), world0)"
proof -
  have w: "worker_importable env_ok" by (simp add: env_ok_def)
  show ?thesis
    using not_endswith_notes_txt
      invalid_extension_rejected [OF not_endswith_notes_txt, of env_ok "[]" "''hello''" "''t1''" world0]
    by (simp add: w)
qed

text \<open>
  Without the worker module a text file is answered with 503, not 400.
\<close>

theorem async_rejection_unavailable:
  "analyze_document_async env_no_worker ''notes.txt'' [] ''hello'' ''t1'' world0 =
     (Inl (HTTPException 503
        ''Queue worker unavailable. Ensure Redis is running and Celery is installed.''), world0)"
  by (simp add: analyze_document_async_def env_no_worker_def env_ok_def)

text \<open>
  C10. When \<open>os.remove\<close> does not raise, the document is gone when a run of the task
  ends, also when it ends by raising \<open>Retry\<close>; so over the deliveries of a job only the
  first call of the crew can find the file, every retried attempt begins without it.
\<close>

theorem retried_attempts_find_no_file:
  assumes ok: "\<not> remove_fails e"
  shows "files (snd (analyze_document_task e n task_id q p w)) p = None
       \<and> (\<exists>cs. new_calls w (snd (deliver e n task_id q p w)) = (q, p, path_exists w p) # cs
               \<and> list_all (\<lambda>c. \<not> snd (snd c)) cs)"
proof
  show "files (snd (analyze_document_task e n task_id q p w)) p = None"
    using ok by (rule task_file_removed)
  from deliver_calls [OF ok, of n task_id q p w] obtain cs where
    H: "engine_calls (snd (deliver e n task_id q p w)) =
          engine_calls w @ (q, p, path_exists w p) # cs
        \<and> list_all (\<lambda>c. \<not> snd (snd c)) cs"
    ..
  have "new_calls w (snd (deliver e n task_id q p w)) = (q, p, path_exists w p) # cs"
    using H [THEN conjunct1] by (rule new_calls_append)
  with H [THEN conjunct2]
  show "\<exists>cs. new_calls w (snd (deliver e n task_id q p w)) = (q, p, path_exists w p) # cs
               \<and> list_all (\<lambda>c. \<not> snd (snd c)) cs"
    by (intro exI conjI)
qed

theorem retried_attempts_find_no_file_witness:
  "\<not> remove_fails env_fails
   \<and> files (snd (analyze_document_task env_fails 0 ''t1'' ''Summarise'' (document_path ''t1'')
                  world1)) (document_path ''t1'') = None
   \<and> new_calls world1
        (snd (deliver env_fails 0 ''t1'' ''Summarise'' (document_path ''t1'') world1)) =
      [(''Summarise'', document_path ''t1'', True), (''Summarise'', document_path ''t1'', False),
       (''Summarise'', document_path ''t1'', False)]"
proof -
  have ok: "\<not> remove_fails env_fails"
    by (simp add: env_fails_def)
  have c: "new_calls world1
        (snd (deliver env_fails 0 ''t1'' ''Summarise'' (document_path ''t1'') world1)) =
      [(''Summarise'', document_path ''t1'', True), (''Summarise'', document_path ''t1'', False),
       (''Summarise'', document_path ''t1'', False)]"
    apply (subst deliver.simps)
    apply (simp add: run_defs env_fails_def crew_fails_def world1_def world0_def job1_def)
    apply (subst deliver.simps)
    apply (simp add: run_defs env_fails_def crew_fails_def)
    apply (subst deliver.simps)
    apply (simp add: run_defs env_fails_def crew_fails_def new_calls_def)
    done
  show ?thesis
    using ok c retried_attempts_find_no_file [OF ok, of 0 "''t1''" "''Summarise''"
        "document_path ''t1''" world1]
    by simp
qed

text \<open>
  When \<open>os.remove\<close> raises, the exception is swallowed, the task still raises \<open>Retry\<close>,
  and the file is there at the start of each of the three attempts.
\<close>

theorem stuck_file_survives_retry:
  "fst (analyze_document_task env_stuck 0 ''t1'' ''Summarise'' (document_path ''t1'') world1)
     = Inl (Retry ''boom'' 5 2)
   \<and> files (snd (analyze_document_task env_stuck 0 ''t1'' ''Summarise'' (document_path ''t1'')
                  world1)) (document_path ''t1'') = Some ''%PDF''
   \<and> new_calls world1
        (snd (deliver env_stuck 0 ''t1'' ''Summarise'' (document_path ''t1'') world1)) =
      [(''Summarise'', document_path ''t1'', True), (''Summarise'', document_path ''t1'', True),
       (''Summarise'', document_path ''t1'', True)]"
proof (intro conjI)
  show "fst (analyze_document_task env_stuck 0 ''t1'' ''Summarise'' (document_path ''t1'') world1)
     = Inl (Retry ''boom'' 5 2)"
    by (simp add: run_defs env_stuck_def env_fails_def crew_fails_def world1_def world0_def
          job1_def)
  show "files (snd (analyze_document_task env_stuck 0 ''t1'' ''Summarise'' (document_path ''t1'')
                  world1)) (document_path ''t1'') = Some ''%PDF''"
    by (simp add: run_defs env_stuck_def env_fails_def crew_fails_def world1_def world0_def
          job1_def)
  show "new_calls world1
        (snd (deliver env_stuck 0 ''t1'' ''Summarise'' (document_path ''t1'') world1)) =
      [(''Summarise'', document_path ''t1'', True), (''Summarise'', document_path ''t1'', True),
       (''Summarise'', document_path ''t1'', True)]"
    apply (subst deliver.simps)
    apply (simp add: run_defs env_stuck_def env_fails_def crew_fails_def world1_def world0_def
          job1_def)
    apply (subst deliver.simps)
    apply (simp add: run_defs env_stuck_def env_fails_def crew_fails_def)
    apply (subst deliver.simps)
    apply (simp add: run_defs env_stuck_def env_fails_def crew_fails_def new_calls_def)
    done
qed

end
